theory Spec2Isabelle
  imports Main
begin

unbundle bit_operations_syntax

section \<open>Python primitives used by textout.py and textin.py\<close>

text \<open>
  Python strings are sequences of code points; the model uses \<^typ>\<open>string\<close>, so a
  character is a code point below 256.  Python integers are unbounded and are modelled
  by \<^typ>\<open>int\<close>; list positions and lengths are \<^typ>\<open>nat\<close>.
\<close>

subsection \<open>Exceptions\<close>

text \<open>
  \<open>ValueError\<close> and \<open>AssertionError\<close> carry the message text of the source.  The
  \<open>ValueError\<close> re-raised at textin.py line 240 embeds the \<open>repr\<close> of a list and the
  message of the inner exception; it is kept structured as \<open>FieldValueError name values\<close>.
  \<open>BuiltinValueError\<close> is the \<open>ValueError\<close> of \<open>int(s)\<close> or \<open>float(s)\<close>; its message
  is not modelled.
\<close>

datatype exn =
    AssertionError string
  | ValueError string
  | FieldValueError string "string list"
  | BuiltinValueError
  | IndexError
  | TypeError
  | OverflowError
  | AttributeError

text \<open>A method of the writer either returns, or raises and leaves the object as it was
  mutated up to the raise.\<close>

datatype 's outcome = Returns 's | Raises exn 's

fun state_of :: "'s outcome \<Rightarrow> 's" where
  "state_of (Returns s) = s"
| "state_of (Raises e s) = s"

fun raised :: "'s outcome \<Rightarrow> exn option" where
  "raised (Returns s) = None"
| "raised (Raises e s) = Some e"

subsection \<open>Integer formatting\<close>

definition digit_char :: "nat \<Rightarrow> char" where
  "digit_char d = ''0123456789ABCDEF'' ! d"

fun dec_nat :: "nat \<Rightarrow> string" where
  "dec_nat n = (if n < 10 then [digit_char n] else dec_nat (n div 10) @ [digit_char (n mod 10)])"

declare dec_nat.simps [simp del]

text \<open>\<open>f"{n}"\<close> and \<open>str(n)\<close> for an integer.\<close>

definition str_int :: "int \<Rightarrow> string" where
  "str_int n = (if n < 0 then CHR ''-'' # dec_nat (nat (- n)) else dec_nat (nat n))"

fun hex_nat :: "nat \<Rightarrow> string" where
  "hex_nat n = (if n < 16 then [digit_char n] else hex_nat (n div 16) @ [digit_char (n mod 16)])"

declare hex_nat.simps [simp del]

definition zfill :: "nat \<Rightarrow> string \<Rightarrow> string" where
  "zfill width s = replicate (width - length s) CHR ''0'' @ s"

text \<open>\<open>f"{n:08X}"\<close>: upper-case hexadecimal, zero-padded to eight characters, the sign
  counted in the width.\<close>

definition fmt_08X :: "int \<Rightarrow> string" where
  "fmt_08X n = (if n < 0 then CHR ''-'' # zfill 7 (hex_nat (nat (- n))) else zfill 8 (hex_nat (nat n)))"

text \<open>The value of a string of upper-case hexadecimal digits (used to state what
  \<open>fmt_08X\<close> prints).\<close>

definition is_upper_hex :: "char \<Rightarrow> bool" where
  "is_upper_hex c = (c \<in> set ''0123456789ABCDEF'')"

definition hex_digit_val :: "char \<Rightarrow> nat" where
  "hex_digit_val c = (if c \<in> set ''0123456789'' then of_char c - 48 else of_char c - 55)"

definition hex_val :: "string \<Rightarrow> nat" where
  "hex_val s = foldl (\<lambda>acc c. 16 * acc + hex_digit_val c) 0 s"

subsection \<open>Floats\<close>

text \<open>
  Binary floating point is not modelled.  The writer and the reader use five float
  primitives of Python; they are parameters of the model, over any type \<open>'f\<close> of floats:
  \<open>fmt6 x\<close> is \<open>f"{x:.6f}"\<close>, \<open>frepr x\<close> is \<open>f"{x}"\<close>, \<open>fneg x\<close> is \<open>x < 0\<close>,
  \<open>f_of_int n\<close> is \<open>float(n)\<close> (\<open>None\<close>: OverflowError) and \<open>f_of_str s\<close> is
  \<open>float(s)\<close> (\<open>None\<close>: ValueError).
\<close>

record 'f float_ops =
  fmt6 :: "'f \<Rightarrow> string"
  frepr :: "'f \<Rightarrow> string"
  fneg :: "'f \<Rightarrow> bool"
  f_of_int :: "int \<Rightarrow> 'f option"
  f_of_str :: "string \<Rightarrow> 'f option"

text \<open>A value handed to the writer: a Python \<open>int\<close>, \<open>float\<close> or \<open>str\<close>.\<close>

datatype 'f pyval = PInt int | PFloat 'f | PStr string

subsection \<open>Strings\<close>

text \<open>\<open>str.isspace\<close> on a code point below 256.\<close>

definition isspace :: "char \<Rightarrow> bool" where
  "isspace c = (c \<in> set [CHR 0x09, CHR 0x0A, CHR 0x0B, CHR 0x0C, CHR 0x0D, CHR 0x1C, CHR 0x1D,
       CHR 0x1E, CHR 0x1F, CHR 0x20, CHR 0x85, CHR 0xA0])"

text \<open>\<open>s.split()\<close>: the maximal runs of characters that are not whitespace.\<close>

fun split_ws_from :: "string \<Rightarrow> string \<Rightarrow> string list" where
  "split_ws_from cur [] = (if cur = [] then [] else [cur])"
| "split_ws_from cur (c # cs) =
     (if isspace c then (if cur = [] then split_ws_from [] cs else cur # split_ws_from [] cs)
      else split_ws_from (cur @ [c]) cs)"

definition split_ws :: "string \<Rightarrow> string list" where
  "split_ws s = split_ws_from [] s"

text \<open>\<open>' '.join(xs)\<close>.\<close>

fun join_sp :: "string list \<Rightarrow> string" where
  "join_sp [] = []"
| "join_sp [x] = x"
| "join_sp (x # y # ys) = x @ '' '' @ join_sp (y # ys)"

text \<open>\<open>" " * n\<close> and \<open>"-" * n\<close>: empty when \<open>n\<close> is not positive.\<close>

definition spaces :: "int \<Rightarrow> string" where
  "spaces n = replicate (nat n) CHR '' ''"

definition dashes :: "int \<Rightarrow> string" where
  "dashes n = replicate (nat n) CHR ''-''"

definition quoted :: "string \<Rightarrow> string" where
  "quoted s = CHR 0x22 # s @ [CHR 0x22]"

text \<open>\<open>name, type_chars = spec.split(":", 1)\<close>, for a \<open>spec\<close> that contains a colon.\<close>

definition spec_name :: "string \<Rightarrow> string" where
  "spec_name spec = takeWhile (\<lambda>c. c \<noteq> CHR '':'') spec"

definition spec_type_chars :: "string \<Rightarrow> string" where
  "spec_type_chars spec = tl (dropWhile (\<lambda>c. c \<noteq> CHR '':'') spec)"

section \<open>textout.py: the writer\<close>

datatype TextType = INTEGER | FLOAT | STRING | GUID

text \<open>\<open>TextType.from_char\<close>: \<open>char.upper()\<close> is compared with \<open>'D'\<close>, \<open>'F'\<close>, \<open>'S'\<close>,
  \<open>'G'\<close>; the loop over the enumeration falls through and returns \<open>None\<close> for any other
  character.\<close>

definition from_char :: "char \<Rightarrow> TextType option" where
  "from_char c =
     (if c = CHR ''d'' \<or> c = CHR ''D'' then Some INTEGER
      else if c = CHR ''f'' \<or> c = CHR ''F'' then Some FLOAT
      else if c = CHR ''s'' \<or> c = CHR ''S'' then Some STRING
      else if c = CHR ''g'' \<or> c = CHR ''G'' then Some GUID
      else None)"

text \<open>The writer's \<open>TextField\<close> (textout.py lines 28-43).  The three lists \<open>ftypes\<close>,
  \<open>total_space\<close> and \<open>has_negative\<close> have one element per type character.\<close>

record TextFieldW =
  fname :: string
  ftype_chars :: string
  ftypes :: "TextType option list"
  total_space :: "nat list"
  has_negative :: "bool list"
  full_spec :: string
  type_widths :: "int list"
  total_width :: int

definition TextFieldW_init :: "string \<Rightarrow> string \<Rightarrow> TextFieldW" where
  "TextFieldW_init name type_chars =
     \<lparr> fname = name, ftype_chars = type_chars, ftypes = map from_char type_chars,
       total_space = map (\<lambda>c. 0) type_chars, has_negative = map (\<lambda>c. False) type_chars,
       full_spec = name @ '':'' @ type_chars, type_widths = [], total_width = 0 \<rparr>"

record TypeEntry =
  offset :: nat
  length_e :: nat
  field_index :: nat
  type_index :: nat
  back_offset :: nat
  is_digit :: bool
  val :: string

text \<open>\<open>fp\<close> is the open stream with the text written to it so far, \<open>None\<close> when no
  file is open.\<close>

record TextWriter =
  fp :: "string option"
  wfields :: "TextFieldW list"
  block_name :: string
  line_count :: int
  current_line :: int
  current_field :: nat
  num_fields :: nat
  type_entries :: "TypeEntry list"
  block_data :: string

definition TextWriter_init :: TextWriter where
  "TextWriter_init =
     \<lparr> fp = None, wfields = [], block_name = [], line_count = 0, current_line = 0,
       current_field = 0, num_fields = 0, type_entries = [], block_data = [] \<rparr>"

text \<open>\<open>open_file\<close>; the failure of \<open>open\<close> belongs to the file system and is left out.\<close>

definition open_file :: "TextWriter \<Rightarrow> TextWriter outcome" where
  "open_file w = Returns (w\<lparr>fp := Some []\<rparr>)"

definition close_file :: "TextWriter \<Rightarrow> TextWriter outcome" where
  "close_file w = (case fp w of None \<Rightarrow> Returns w | Some out \<Rightarrow> Returns (w\<lparr>fp := None\<rparr>))"

subsection \<open>add_field\<close>

text \<open>The first loop of \<open>add_field\<close> (lines 110-115): every spec has a colon, and the
  type characters are counted.\<close>

fun expected_values :: "string list \<Rightarrow> exn + nat" where
  "expected_values [] = Inr 0"
| "expected_values (spec # specs) =
     (if CHR '':'' \<notin> set spec
      then Inl (ValueError (''Field specification must include types (e.g. 'name:dfs'): '' @ spec))
      else (case expected_values specs of
              Inl e \<Rightarrow> Inl e
            | Inr n \<Rightarrow> Inr (length (spec_type_chars spec) + n)))"

text \<open>\<open>f"{value}"\<close> for a value of each Python type.\<close>

fun str_val :: "'f float_ops \<Rightarrow> 'f pyval \<Rightarrow> string" where
  "str_val ops (PInt n) = str_int n"
| "str_val ops (PFloat x) = frepr ops x"
| "str_val ops (PStr s) = s"

text \<open>
  Lines 151-174, the branch on \<open>data_type\<close>: the text of the entry, \<open>is_digit\<close>, and
  whether the branch sets \<open>field.has_negative[j]\<close>.  The errors are those of Python on
  a value of another type: \<open>value < 0\<close> on a \<open>str\<close> and \<open>value >> 32\<close> on a \<open>float\<close>
  raise \<open>TypeError\<close>, \<open>float(value)\<close> raises \<open>OverflowError\<close> on an integer too large
  and \<open>ValueError\<close> on a string that is no float literal.  With \<open>data_type\<close> \<open>None\<close> no
  branch is taken and the entry keeps its initial fields.
\<close>

fun render :: "'f float_ops \<Rightarrow> TextType option \<Rightarrow> 'f pyval \<Rightarrow> exn + string \<times> bool \<times> bool" where
  "render ops (Some INTEGER) (PInt n) = Inr (str_int n, True, n < 0)"
| "render ops (Some INTEGER) (PFloat x) = Inr (frepr ops x, True, fneg ops x)"
| "render ops (Some INTEGER) (PStr s) = Inl TypeError"
| "render ops (Some FLOAT) (PInt n) =
     (case f_of_int ops n of
        None \<Rightarrow> Inl OverflowError
      | Some x \<Rightarrow> Inr (fmt6 ops x, True, fneg ops x))"
| "render ops (Some FLOAT) (PFloat x) = Inr (fmt6 ops x, True, fneg ops x)"
| "render ops (Some FLOAT) (PStr s) =
     (case f_of_str ops s of
        None \<Rightarrow> Inl BuiltinValueError
      | Some x \<Rightarrow> Inr (s, True, fneg ops x))"
| "render ops (Some STRING) v = Inr (quoted (str_val ops v), False, False)"
| "render ops (Some GUID) (PStr s) = Inr (quoted s, False, False)"
| "render ops (Some GUID) (PInt n) =
     (let high = (drop_bit 32 n) AND 0xFFFFFFFF;
          low = n AND 0xFFFFFFFF
      in Inr (quoted (fmt_08X high @ '':'' @ fmt_08X low), False, False))"
| "render ops (Some GUID) (PFloat x) = Inl TypeError"
| "render ops None v = Inr ([], False, False)"

text \<open>
  The body of the inner loop (lines 145-188) for component \<open>j\<close> of the field at position
  \<open>fi\<close> of \<open>self.fields\<close>; \<open>eidx\<close> is \<open>orig_current_field + i\<close>.  \<open>entry.value[0]\<close>
  raises \<open>IndexError\<close> on an empty text, after \<open>block_data\<close> was extended.
\<close>

definition add_entry ::
  "'f float_ops \<Rightarrow> TextWriter \<Rightarrow> nat \<Rightarrow> nat \<Rightarrow> nat \<Rightarrow> 'f pyval \<Rightarrow> TextType option \<Rightarrow> TextWriter outcome" where
  "add_entry ops w fi eidx j v data_type =
     (case render ops data_type v of
        Inl e \<Rightarrow> Raises e w
      | Inr (txt, dig, neg) \<Rightarrow>
          (let field = wfields w ! fi;
               field1 = (if neg then field\<lparr>has_negative := (has_negative field)[j := True]\<rparr> else field);
               entry = \<lparr> offset = length (block_data w), length_e = length txt, field_index = eidx,
                         type_index = j, back_offset = 0, is_digit = dig, val = txt \<rparr>;
               w1 = w\<lparr>wfields := (wfields w)[fi := field1], block_data := block_data w @ txt\<rparr>
           in if dig \<and> txt = [] then Raises IndexError w1
              else
                (let base_width = length txt + (if dig \<and> hd txt \<noteq> CHR ''-'' \<and> has_negative field1 ! j then 1 else 0);
                     field2 = (if total_space field1 ! j < base_width
                               then field1\<lparr>total_space := (total_space field1)[j := base_width]\<rparr>
                               else field1)
                 in Returns (w1\<lparr>wfields := (wfields w)[fi := field2],
                                 type_entries := type_entries w1 @ [entry]\<rparr>))))"

fun add_values ::
  "'f float_ops \<Rightarrow> TextWriter \<Rightarrow> nat \<Rightarrow> nat \<Rightarrow> nat \<Rightarrow> ('f pyval \<times> TextType option) list \<Rightarrow> TextWriter outcome" where
  "add_values ops w fi eidx j [] = Returns w"
| "add_values ops w fi eidx j ((v, data_type) # rest) =
     (case add_entry ops w fi eidx j v data_type of
        Raises e w' \<Rightarrow> Raises e w'
      | Returns w' \<Rightarrow> add_values ops w' fi eidx (Suc j) rest)"

text \<open>
  One round of the loop over the specs (lines 123-188).  On the first line the field is
  created and appended, so it is the last of \<open>self.fields\<close>; on a later line it is
  \<open>self.fields[orig_current_field + i]\<close>.  \<open>vals\<close> is \<open>values[value_index:]\<close>.
\<close>

definition add_spec_values ::
  "'f float_ops \<Rightarrow> TextWriter \<Rightarrow> nat \<Rightarrow> nat \<Rightarrow> string \<Rightarrow> string \<Rightarrow> 'f pyval list \<Rightarrow> TextWriter outcome" where
  "add_spec_values ops w fi eidx name type_chars vals =
     (let field = wfields w ! fi;
          field_values = take (length type_chars) vals
      in if length field_values \<noteq> length (ftypes field)
         then Raises (ValueError (''Expected '' @ str_int (int (length (ftypes field)))
                @ '' values for field '' @ name @ '', got ''
                @ str_int (int (length field_values)))) w
         else add_values ops w fi eidx 0 (zip field_values (ftypes field)))"

definition add_spec ::
  "'f float_ops \<Rightarrow> TextWriter \<Rightarrow> nat \<Rightarrow> nat \<Rightarrow> string \<Rightarrow> 'f pyval list \<Rightarrow> TextWriter outcome" where
  "add_spec ops w orig_current_field i spec vals =
     (let name = spec_name spec;
          type_chars = spec_type_chars spec
      in if current_line w = 0
         then add_spec_values ops
                (w\<lparr>wfields := wfields w @ [TextFieldW_init name type_chars],
                   num_fields := num_fields w + 1\<rparr>)
                (length (wfields w)) (orig_current_field + i) name type_chars vals
         else
           (let current_field_index = orig_current_field + i
            in if current_field_index \<ge> length (wfields w)
               then Raises (ValueError (''Field index out of range: ''
                      @ str_int (int current_field_index) @ '', fields: ''
                      @ str_int (int (length (wfields w))))) w
               else if fname (wfields w ! current_field_index) \<noteq> name
               then Raises (ValueError (''Field name mismatch: expected ''
                      @ fname (wfields w ! current_field_index) @ '', got '' @ name)) w
               else add_spec_values ops w current_field_index (orig_current_field + i)
                      name type_chars vals))"

fun add_specs ::
  "'f float_ops \<Rightarrow> TextWriter \<Rightarrow> nat \<Rightarrow> nat \<Rightarrow> string list \<Rightarrow> 'f pyval list \<Rightarrow> TextWriter outcome" where
  "add_specs ops w orig_current_field i [] vals = Returns w"
| "add_specs ops w orig_current_field i (spec # specs) vals =
     (case add_spec ops w orig_current_field i spec vals of
        Raises e w' \<Rightarrow> Raises e w'
      | Returns w' \<Rightarrow>
          add_specs ops w' orig_current_field (Suc i) specs
            (drop (length (spec_type_chars spec)) vals))"

definition add_field :: "'f float_ops \<Rightarrow> TextWriter \<Rightarrow> string \<Rightarrow> 'f pyval list \<Rightarrow> TextWriter outcome" where
  "add_field ops w field_spec values =
     (if \<not> current_line w < line_count w then Raises (AssertionError ''Too many lines added'') w
      else
        (let field_specs = split_ws field_spec
         in case expected_values field_specs of
              Inl e \<Rightarrow> Raises e w
            | Inr expected \<Rightarrow>
                if length values \<noteq> expected
                then Raises (ValueError (''Expected '' @ str_int (int expected)
                       @ '' values for field '' @ field_spec @ '', got ''
                       @ str_int (int (length values)))) w
                else
                  (case add_specs ops w (current_field w) 0 field_specs values of
                     Raises e w' \<Rightarrow> Raises e w'
                   | Returns w' \<Rightarrow>
                       Returns (w'\<lparr>current_field := current_field w' + length field_specs\<rparr>))))"

subsection \<open>add_end_line\<close>

text \<open>
  Lines 202-217, the body of the loop over the fields: the column widths of one field.
  \<open>type_widths[-1]\<close> raises \<open>IndexError\<close> for a field without type characters.
\<close>

definition layout_field :: "TextFieldW \<Rightarrow> exn + TextFieldW" where
  "layout_field field =
     (let widths = map (\<lambda>type_size. max (int type_size) 1) (total_space field);
          total = sum_list widths + int (length widths) - 1;
          header_len = int (length (full_spec field))
      in if total < header_len
         then (if widths = [] then Inl IndexError
               else Inr (field\<lparr>type_widths := widths[length widths - 1 := last widths + (header_len - total)],
                              total_width := header_len\<rparr>))
         else Inr (field\<lparr>type_widths := widths, total_width := total\<rparr>))"

text \<open>The loop over the fields; it raises with the fields before the failing one already
  laid out.\<close>

fun layout_fields :: "TextFieldW list \<Rightarrow> exn \<times> TextFieldW list + TextFieldW list" where
  "layout_fields [] = Inr []"
| "layout_fields (field # rest) =
     (case layout_field field of
        Inl e \<Rightarrow> Inl (e, field # rest)
      | Inr field' \<Rightarrow>
          (case layout_fields rest of
             Inl (e, rest') \<Rightarrow> Inl (e, field' # rest')
           | Inr rest' \<Rightarrow> Inr (field' # rest')))"

text \<open>Lines 238-242: the text written for one entry, with the space that stands for the
  sign.\<close>

definition value_str :: "TextFieldW \<Rightarrow> nat \<Rightarrow> TypeEntry \<Rightarrow> string" where
  "value_str field type_idx entry =
     (if is_digit entry \<and> has_negative field ! type_idx \<and> hd (val entry) \<noteq> CHR ''-''
      then '' '' else []) @ val entry"

text \<open>
  Lines 234-251, the loop over the components of one field: \<open>widths\<close> is the rest of
  \<open>field.type_widths\<close> from \<open>type_idx\<close> on, and the result is \<open>field_str\<close>,
  \<open>current_width\<close> and \<open>entry_index\<close>.  \<open>self.type_entries[entry_index]\<close> raises
  \<open>IndexError\<close> past the end, and so does \<open>entry.value[0]\<close> on an empty text.
\<close>

fun field_values_str ::
  "TextFieldW \<Rightarrow> TypeEntry list \<Rightarrow> nat \<Rightarrow> int list \<Rightarrow> string \<Rightarrow> int \<Rightarrow> nat \<Rightarrow> exn + string \<times> int \<times> nat" where
  "field_values_str field entries type_idx [] field_str current_width entry_index =
     Inr (field_str, current_width, entry_index)"
| "field_values_str field entries type_idx (type_width # widths) field_str current_width entry_index =
     (if entry_index \<ge> length entries then Inl IndexError
      else
        (let entry = entries ! entry_index
         in if is_digit entry \<and> has_negative field ! type_idx \<and> val entry = [] then Inl IndexError
            else
              (let field_str1 = field_str @ value_str field type_idx entry;
                   current_width1 = current_width + int (length (value_str field type_idx entry))
               in if widths \<noteq> []
                  then
                    (let padding = type_width - int (length (value_str field type_idx entry))
                     in field_values_str field entries (Suc type_idx) widths
                          (field_str1 @ spaces padding @ '' '') (current_width1 + padding + 1)
                          (Suc entry_index))
                  else field_values_str field entries (Suc type_idx) widths
                         field_str1 current_width1 (Suc entry_index))))"

text \<open>Lines 230-259, the loop over the fields of one data line, writing to the stream
  \<open>out\<close>.\<close>

fun write_fields ::
  "TypeEntry list \<Rightarrow> TextFieldW list \<Rightarrow> string \<Rightarrow> nat \<Rightarrow> exn \<times> string + string \<times> nat" where
  "write_fields entries [] out entry_index = Inr (out, entry_index)"
| "write_fields entries (field # rest) out entry_index =
     (case field_values_str field entries 0 (type_widths field) [] 0 entry_index of
        Inl e \<Rightarrow> Inl (e, out)
      | Inr (field_str, current_width, entry_index') \<Rightarrow>
          (let field_str1 = (if current_width < total_width field
                             then field_str @ spaces (total_width field - current_width)
                             else field_str);
               out1 = out @ field_str1;
               out2 = (if rest \<noteq> [] then out1 @ '' '' else out1)
           in write_fields entries rest out2 entry_index'))"

text \<open>Line 263: whether the header is repeated after the line with index \<open>line_idx\<close>;
  \<open>n\<close> is \<open>self.line_count\<close>.\<close>

definition repeat_header :: "int \<Rightarrow> nat \<Rightarrow> bool" where
  "repeat_header n line_idx =
     ((int line_idx + 1) mod 80 = 0 \<and> n - int line_idx > 10)"

text \<open>Lines 219 and 267: the header of a field, padded to the width of the field.\<close>

definition header_of :: "TextFieldW \<Rightarrow> string" where
  "header_of field = full_spec field @ spaces (total_width field - int (length (full_spec field)))"

text \<open>The texts written at lines 223, 224 (and 264, 270) and 269.\<close>

definition header_line :: "TextFieldW list \<Rightarrow> string" where
  "header_line flds = '' { '' @ join_sp (map header_of flds) @ '' }'' @ [CHR 0x0A]"

definition sep_line :: "TextFieldW list \<Rightarrow> string" where
  "sep_line flds = ''// '' @ join_sp (map (\<lambda>field. dashes (total_width field)) flds) @ '' '' @ [CHR 0x0A]"

definition rep_line :: "TextFieldW list \<Rightarrow> string" where
  "rep_line flds = ''// '' @ join_sp (map header_of flds) @ [CHR 0x0A]"

text \<open>Lines 227-270, the loop over \<open>range(self.line_count)\<close>, on the fields as laid
  out.\<close>

fun write_lines ::
  "TextFieldW list \<Rightarrow> TypeEntry list \<Rightarrow> int \<Rightarrow> nat list \<Rightarrow> string \<Rightarrow> nat \<Rightarrow> exn \<times> string + string" where
  "write_lines flds entries n [] out entry_index = Inr out"
| "write_lines flds entries n (line_idx # idxs) out entry_index =
     (case write_fields entries flds (out @ ''   '') entry_index of
        Inl (e, out') \<Rightarrow> Inl (e, out')
      | Inr (out1, entry_index') \<Rightarrow>
          (let out2 = out1 @ [CHR 0x0A];
               out3 = (if repeat_header n line_idx
                       then out2 @ sep_line flds @ rep_line flds @ sep_line flds else out2)
           in write_lines flds entries n idxs out3 entry_index'))"

text \<open>
  Lines 197-272: the section is written to the stream.  \<open>self.fp.write\<close> raises
  \<open>AttributeError\<close> when no file is open.  The header and separator texts that the
  source collects in \<open>header_fields\<close> and \<open>separator_parts\<close> during the layout loop are
  those of \<open>header_line\<close> and \<open>sep_line\<close> on the fields as laid out.
\<close>

definition flush_section :: "TextWriter \<Rightarrow> TextWriter outcome" where
  "flush_section w =
     (case fp w of
        None \<Rightarrow> Raises AttributeError w
      | Some out \<Rightarrow>
          (case layout_fields (wfields w) of
             Inl (e, flds) \<Rightarrow> Raises e (w\<lparr>fp := Some (out @ block_name w), wfields := flds\<rparr>)
           | Inr flds \<Rightarrow>
               (case write_lines flds (type_entries w) (line_count w) [0..<nat (line_count w)]
                       (out @ block_name w @ header_line flds @ sep_line flds) 0 of
                  Inl (e, out') \<Rightarrow> Raises e (w\<lparr>wfields := flds, fp := Some out'\<rparr>)
                | Inr out' \<Rightarrow> Returns (w\<lparr>wfields := flds, fp := Some (out' @ [CHR 0x0A])\<rparr>))))"

definition add_end_line :: "TextWriter \<Rightarrow> TextWriter outcome" where
  "add_end_line w =
     (let w1 = w\<lparr>current_line := current_line w + 1, current_field := 0\<rparr>
      in if line_count w1 = 0 \<or> current_line w1 = line_count w1
         then flush_section w1
         else Returns w1)"

subsection \<open>add_header\<close>

definition add_header :: "TextWriter \<Rightarrow> string \<Rightarrow> int \<Rightarrow> TextWriter outcome" where
  "add_header w header_name count =
     (let w1 = w\<lparr>line_count := (if count < 0 then 1 else count), current_line := 0,
                  current_field := 0, num_fields := 0, type_entries := [], wfields := [],
                  block_data := [],
                  block_name := (if count < 0 then ''[ '' @ header_name @ '' ]'' @ [CHR 0x0A]
                                 else ''[ '' @ header_name @ '' : '' @ str_int count @ '' ]'' @ [CHR 0x0A])\<rparr>
      in if count = 0 then add_end_line w1 else Returns w1)"

subsection \<open>Sequences of calls\<close>

text \<open>A caller's calls on one writer, run in order; the run stops at the first call that
  raises.\<close>

datatype 'f wcall = AddHeader string int | AddField string "'f pyval list" | AddEndLine | CloseFile

fun do_call :: "'f float_ops \<Rightarrow> TextWriter \<Rightarrow> 'f wcall \<Rightarrow> TextWriter outcome" where
  "do_call ops w (AddHeader name count) = add_header w name count"
| "do_call ops w (AddField spec vals) = add_field ops w spec vals"
| "do_call ops w AddEndLine = add_end_line w"
| "do_call ops w CloseFile = close_file w"

fun run :: "'f float_ops \<Rightarrow> TextWriter \<Rightarrow> 'f wcall list \<Rightarrow> TextWriter outcome" where
  "run ops w [] = Returns w"
| "run ops w (c # cs) =
     (case do_call ops w c of
        Raises e w' \<Rightarrow> Raises e w'
      | Returns w' \<Rightarrow> run ops w' cs)"

text \<open>A stand-in for the float primitives on the integers, used where an example has no
  float in it: a float is a whole number \<open>n\<close> and prints as \<open>n.000000\<close>.\<close>

definition whole_ops :: "int float_ops" where
  "whole_ops =
     \<lparr> fmt6 = (\<lambda>n. str_int n @ ''.000000''), frepr = (\<lambda>n. str_int n @ ''.0''),
       fneg = (\<lambda>n. n < 0), f_of_int = Some, f_of_str = (\<lambda>s. None) \<rparr>"

section \<open>textin.py: the reader\<close>

subsection \<open>String functions of Python\<close>

text \<open>\<open>s.strip()\<close>.\<close>

definition strip :: "string \<Rightarrow> string" where
  "strip s = rev (dropWhile isspace (rev (dropWhile isspace s)))"

text \<open>\<open>s.startswith(p)\<close> and \<open>s.endswith(p)\<close>.\<close>

definition startswith :: "string \<Rightarrow> string \<Rightarrow> bool" where
  "startswith s p = (take (length p) s = p)"

definition endswith :: "string \<Rightarrow> string \<Rightarrow> bool" where
  "endswith s p = (length p \<le> length s \<and> drop (length s - length p) s = p)"

text \<open>\<open>s.split(c)\<close> for a separator of one character: the list is never empty.\<close>

fun split_char :: "char \<Rightarrow> string \<Rightarrow> string list" where
  "split_char c [] = [[]]"
| "split_char c (x # xs) =
     (if x = c then [] # split_char c xs
      else (case split_char c xs of [] \<Rightarrow> [[x]] | part # parts \<Rightarrow> (x # part) # parts))"

text \<open>\<open>s.split(sub, 1)\<close> for a separator that occurs in \<open>s\<close>: the text before its first
  occurrence and the text after it; \<open>None\<close> when \<open>sub\<close> does not occur (\<open>sub in s\<close> is
  false).\<close>

fun split_once :: "string \<Rightarrow> string \<Rightarrow> (string \<times> string) option" where
  "split_once sub [] = (if sub = [] then Some ([], []) else None)"
| "split_once sub (c # cs) =
     (if startswith (c # cs) sub then Some ([], drop (length sub) (c # cs))
      else (case split_once sub cs of
              None \<Rightarrow> None
            | Some (before, after) \<Rightarrow> Some (c # before, after)))"

text \<open>\<open>str.isalpha\<close> on a code point below 256: the ASCII letters and the letters of
  Latin-1.\<close>

definition isalpha :: "char \<Rightarrow> bool" where
  "isalpha c =
     (let n = (of_char c :: nat)
      in (65 \<le> n \<and> n \<le> 90) \<or> (97 \<le> n \<and> n \<le> 122) \<or> n = 170 \<or> n = 181 \<or> n = 186
         \<or> (192 \<le> n \<and> n \<le> 214) \<or> (216 \<le> n \<and> n \<le> 246) \<or> (248 \<le> n \<and> n \<le> 255))"

text \<open>
  \<open>int(s)\<close> in base 10: whitespace around the literal is dropped, a sign may come first,
  and single underscores may stand between digits.  \<open>None\<close> is \<open>ValueError\<close>.  (The
  interpreter's limit on the number of digits is not modelled.)
\<close>

definition is_dec_digit :: "char \<Rightarrow> bool" where
  "is_dec_digit c = (c \<in> set ''0123456789'')"

definition dec_digit_val :: "char \<Rightarrow> nat" where
  "dec_digit_val c = of_char c - 48"

fun py_digits :: "nat \<Rightarrow> string \<Rightarrow> nat option" where
  "py_digits acc [] = Some acc"
| "py_digits acc [c] = (if is_dec_digit c then Some (10 * acc + dec_digit_val c) else None)"
| "py_digits acc (c # d # cs) =
     (if is_dec_digit c then py_digits (10 * acc + dec_digit_val c) (d # cs)
      else if c = CHR ''_'' \<and> is_dec_digit d then py_digits (10 * acc + dec_digit_val d) cs
      else None)"

definition py_nat :: "string \<Rightarrow> nat option" where
  "py_nat s = (case s of [] \<Rightarrow> None | c # cs \<Rightarrow> if is_dec_digit c then py_digits (dec_digit_val c) cs else None)"

definition py_int :: "string \<Rightarrow> int option" where
  "py_int s =
     (case strip s of
        [] \<Rightarrow> None
      | c # cs \<Rightarrow>
          if c = CHR ''+'' then map_option int (py_nat cs)
          else if c = CHR ''-'' then map_option (\<lambda>n. - int n) (py_nat cs)
          else map_option int (py_nat (c # cs)))"

subsection \<open>Fields, sections and rows\<close>

text \<open>The reader's \<open>TextField\<close> (textin.py lines 29-37).\<close>

record TextField =
  fld_name :: string
  fld_type_chars :: string
  fld_types :: "TextType option list"

definition TextField_init :: "string \<Rightarrow> string \<Rightarrow> TextField" where
  "TextField_init name type_chars =
     \<lparr> fld_name = name, fld_type_chars = type_chars, fld_types = map from_char type_chars \<rparr>"

text \<open>A decoded scalar (a Python \<open>int\<close>, \<open>float\<close> or \<open>str\<close>), and an element of a row:
  a bare scalar for a field of one component, a list of scalars otherwise.\<close>

datatype 'f scalar = SInt int | SFloat 'f | SStr string

datatype 'f cell = One "'f scalar" | Many "'f scalar list"

record 'f TextSection =
  sec_name :: string
  sec_count :: "int option"
  sec_fields :: "TextField list"
  sec_data :: "'f cell list list"

text \<open>\<open>TextField.parse_value\<close> (lines 39-53), one element of the loop: the scalar that
  is appended, if any.  \<open>value[1:-1]\<close> drops the first and the last character.\<close>

fun parse_scalar :: "'f float_ops \<Rightarrow> TextType option \<Rightarrow> string \<Rightarrow> exn + 'f scalar option" where
  "parse_scalar ops (Some INTEGER) v =
     (case py_int v of None \<Rightarrow> Inl BuiltinValueError | Some n \<Rightarrow> Inr (Some (SInt n)))"
| "parse_scalar ops (Some FLOAT) v =
     (case f_of_str ops v of None \<Rightarrow> Inl BuiltinValueError | Some x \<Rightarrow> Inr (Some (SFloat x)))"
| "parse_scalar ops (Some STRING) v =
     (if startswith v [CHR 0x22] \<and> endswith v [CHR 0x22] then Inr (Some (SStr (butlast (tl v))))
      else Inr (Some (SStr v)))"
| "parse_scalar ops (Some GUID) v = Inr (Some (SStr v))"
| "parse_scalar ops None v = Inr None"

fun parse_value :: "'f float_ops \<Rightarrow> (string \<times> TextType option) list \<Rightarrow> exn + 'f scalar list" where
  "parse_value ops [] = Inr []"
| "parse_value ops ((v, data_type) # rest) =
     (case parse_scalar ops data_type v of
        Inl e \<Rightarrow> Inl e
      | Inr r \<Rightarrow>
          (case parse_value ops rest of
             Inl e \<Rightarrow> Inl e
           | Inr rs \<Rightarrow> Inr ((case r of None \<Rightarrow> [] | Some x \<Rightarrow> [x]) @ rs)))"

subsection \<open>parse_section\<close>

text \<open>
  Lines 132-136: \<open>re.search(r'{\s*(.*?)\s*}', section_content, re.DOTALL)\<close> matches from
  the first opening brace when a closing brace follows it, and the group is the text up
  to the first closing brace without the whitespace at its ends.  \<open>None\<close>: no match.
\<close>

definition fields_raw :: "string \<Rightarrow> string option" where
  "fields_raw section_content =
     (case dropWhile (\<lambda>c. c \<noteq> CHR ''{'') section_content of
        [] \<Rightarrow> None
      | brace # rest \<Rightarrow>
          if CHR ''}'' \<in> set rest then Some (strip (takeWhile (\<lambda>c. c \<noteq> CHR ''}'') rest))
          else None)"

text \<open>Lines 138-170, the loop over \<open>fields_raw\<close>; the argument is \<open>fields_raw[i:]\<close>.\<close>

function parse_field_specs :: "string \<Rightarrow> exn + TextField list" where
  "parse_field_specs s =
     (let s1 = dropWhile (\<lambda>c. isspace c \<or> c = CHR '','') s
      in if s1 = [] then Inr []
         else
           (let field_name = strip (takeWhile (\<lambda>c. c \<noteq> CHR '':'') s1);
                s2 = dropWhile (\<lambda>c. c \<noteq> CHR '':'') s1
            in if s2 = []
               then Inl (ValueError (''Not found splitter ':' after row name ''
                      @ [CHR 0x27] @ field_name @ [CHR 0x27] @ ''. Aborting!''))
               else
                 (let field_type = takeWhile isalpha (tl s2);
                      s4 = dropWhile isalpha (tl s2)
                  in case find (\<lambda>c. c \<notin> set ''dDfFsSgG'') field_type of
                       Some c \<Rightarrow>
                         Inl (ValueError (''Unexpected dimension '' @ [CHR 0x27, c, CHR 0x27]
                           @ '' in row '' @ [CHR 0x27] @ field_name @ [CHR 0x27] @ ''. Aborting!''))
                     | None \<Rightarrow>
                         (case parse_field_specs s4 of
                            Inl e \<Rightarrow> Inl e
                          | Inr flds \<Rightarrow>
                              Inr (if field_name \<noteq> [] \<and> field_type \<noteq> []
                                   then TextField_init field_name field_type # flds
                                   else flds)))))"
  by pat_completeness auto
termination
proof (relation "measure length")
  show "wf (measure length)" by simp
next
  fix s s1 field_name s2 field_type s4 :: string and x
  assume s1: "s1 = dropWhile (\<lambda>c. isspace c \<or> c = CHR '','') s"
    and s2: "s2 = dropWhile (\<lambda>c. c \<noteq> CHR '':'') s1" "s2 \<noteq> []"
    and s4: "s4 = dropWhile isalpha (tl s2)"
  have "length s4 \<le> length (tl s2)" unfolding s4 by (rule length_dropWhile_le)
  also have "\<dots> < length s2" using s2(2) by (cases s2) auto
  also have "\<dots> \<le> length s1" unfolding s2(1) by (rule length_dropWhile_le)
  also have "\<dots> \<le> length s" unfolding s1 by (rule length_dropWhile_le)
  finally show "(s4, s) \<in> measure length" by simp
qed

declare parse_field_specs.simps [simp del]

text \<open>Lines 172-195, the loop over the lines of the section with the flag
  \<open>is_commentary\<close>; the result is what the loop appends to \<open>lines\<close>.\<close>

definition kept_part :: "string \<Rightarrow> string list" where
  "kept_part part = (if strip part \<noteq> [] \<and> \<not> startswith (strip part) ''//'' then [strip part] else [])"

fun strip_comments :: "bool \<Rightarrow> string list \<Rightarrow> string list" where
  "strip_comments is_commentary [] = []"
| "strip_comments is_commentary (line # rest) =
     (let line_stripped = strip line
      in if split_once ''/*'' line_stripped \<noteq> None \<and> \<not> is_commentary
         then kept_part (fst (the (split_once ''/*'' line_stripped))) @ strip_comments True rest
         else if split_once ''*/'' line_stripped \<noteq> None \<and> is_commentary
         then kept_part (snd (the (split_once ''*/'' line_stripped))) @ strip_comments False rest
         else if is_commentary then strip_comments is_commentary rest
         else (if line_stripped \<noteq> [] \<and> \<not> startswith line_stripped ''//'' then [line_stripped] else [])
              @ strip_comments is_commentary rest)"

text \<open>Line 197.\<close>

definition data_lines :: "string list \<Rightarrow> string list" where
  "data_lines lines = filter (\<lambda>line. \<not> (startswith line ''{'' \<or> startswith line ''-'')) lines"

text \<open>Lines 208-224: the tokens of a line; \<open>current\<close> and \<open>in_quotes\<close> are the variables
  of the loop over the characters.\<close>

fun tokens_from :: "string \<Rightarrow> bool \<Rightarrow> string \<Rightarrow> string list" where
  "tokens_from current in_quotes [] = (if current \<noteq> [] then [current] else [])"
| "tokens_from current in_quotes (c # cs) =
     (if c = CHR 0x22 then tokens_from (current @ [c]) (\<not> in_quotes) cs
      else if isspace c \<and> \<not> in_quotes
      then (if current \<noteq> [] then current # tokens_from [] in_quotes cs
            else tokens_from current in_quotes cs)
      else tokens_from (current @ [c]) in_quotes cs)"

definition tokenize :: "string \<Rightarrow> string list" where
  "tokenize line = tokens_from [] False line"

text \<open>
  Lines 229-243, the loop over the fields for one line; \<open>vals\<close> is
  \<open>values[value_index:]\<close>.  A \<open>ValueError\<close> of \<open>parse_value\<close> is raised again with the
  name of the field and the tokens.
\<close>

fun parse_row :: "'f float_ops \<Rightarrow> TextField list \<Rightarrow> string list \<Rightarrow> exn + 'f cell list" where
  "parse_row ops [] vals = Inr []"
| "parse_row ops (field # rest) vals =
     (let num_values = length (fld_types field)
      in if num_values \<le> length vals
         then
           (let field_values = take num_values vals
            in case parse_value ops (zip field_values (fld_types field)) of
                 Inl e \<Rightarrow> Inl (FieldValueError (fld_name field) field_values)
               | Inr converted \<Rightarrow>
                   (case parse_row ops rest (drop num_values vals) of
                      Inl e \<Rightarrow> Inl e
                    | Inr cells \<Rightarrow>
                        Inr ((if length converted = 1 then One (hd converted) else Many converted)
                             # cells)))
         else Inl (ValueError (''Unexpected dimension in field '' @ [CHR 0x27] @ fld_name field
                @ [CHR 0x27] @ ''. Expected '' @ str_int (int num_values) @ '' value, but found ''
                @ str_int (int (length vals)) @ ''. Aborting!'')))"

text \<open>Lines 203-245, the loop over the data lines, with \<open>TextSection.add_data_row\<close>.\<close>

fun parse_rows :: "'f float_ops \<Rightarrow> TextField list \<Rightarrow> string list \<Rightarrow> exn + 'f cell list list" where
  "parse_rows ops flds [] = Inr []"
| "parse_rows ops flds (line # rest) =
     (if strip line = [] then parse_rows ops flds rest
      else
        (case parse_row ops flds (tokenize (strip line)) of
           Inl e \<Rightarrow> Inl e
         | Inr row \<Rightarrow>
             if length row \<noteq> length flds
             then Inl (ValueError (''Count elements in row ('' @ str_int (int (length row))
                    @ '') not match fields count ('' @ str_int (int (length flds)) @ ''). Aborting!''))
             else (case parse_rows ops flds rest of
                     Inl e \<Rightarrow> Inl e
                   | Inr rows \<Rightarrow> Inr (row # rows))))"

text \<open>The message of line 248.\<close>

definition row_count_message :: "string \<Rightarrow> int \<Rightarrow> nat \<Rightarrow> string" where
  "row_count_message name expected found =
     ''Unexpected dimension in section ['' @ name @ '']. Expected '' @ str_int expected
     @ '' rows, but found '' @ str_int (int found) @ ''. Aborting!''"

text \<open>\<open>parse_section\<close> up to the last line: the section that is built, or the error
  raised.  \<open>int(count_str) if count_str else None\<close> takes an empty string for no count.\<close>

definition decode_section ::
  "'f float_ops \<Rightarrow> string \<Rightarrow> string option \<Rightarrow> string \<Rightarrow> exn + 'f TextSection" where
  "decode_section ops name count_str section_content =
     (case (case count_str of
              None \<Rightarrow> Inr None
            | Some cs \<Rightarrow>
                if cs = [] then Inr None
                else (case py_int cs of None \<Rightarrow> Inl BuiltinValueError | Some n \<Rightarrow> Inr (Some n))) of
        Inl e \<Rightarrow> Inl e
      | Inr count \<Rightarrow>
          (case (case fields_raw section_content of
                   None \<Rightarrow> Inr []
                 | Some raw \<Rightarrow> parse_field_specs raw) of
             Inl e \<Rightarrow> Inl e
           | Inr flds \<Rightarrow>
               (case parse_rows ops flds
                       (data_lines (strip_comments False (split_char (CHR 0x0A) section_content))) of
                  Inl e \<Rightarrow> Inl e
                | Inr rows \<Rightarrow>
                    (case count of
                       None \<Rightarrow> Inr \<lparr> sec_name = name, sec_count = count, sec_fields = flds, sec_data = rows \<rparr>
                     | Some n \<Rightarrow>
                         if int (length rows) \<noteq> n
                         then Inl (ValueError (row_count_message name n (length rows)))
                         else Inr \<lparr> sec_name = name, sec_count = count, sec_fields = flds,
                                    sec_data = rows \<rparr>))))"

text \<open>The parser object: \<open>self.sections\<close>, a dictionary from names to sections, and
  \<open>self.filepath\<close>.\<close>

record 'f TextParser =
  sections :: "string \<rightharpoonup> 'f TextSection"
  filepath :: "string option"

definition TextParser_init :: "'f TextParser" where
  "TextParser_init = \<lparr> sections = Map.empty, filepath = None \<rparr>"

definition parse_section ::
  "'f float_ops \<Rightarrow> 'f TextParser \<Rightarrow> string \<Rightarrow> string option \<Rightarrow> string \<Rightarrow> 'f TextParser outcome" where
  "parse_section ops p name count_str section_content =
     (case decode_section ops name count_str section_content of
        Inl e \<Rightarrow> Raises e p
      | Inr section \<Rightarrow> Returns (p\<lparr>sections := (sections p)(name \<mapsto> section)\<rparr>))"

subsection \<open>parse_file\<close>

text \<open>Lines 103-105: the quote state after a line.\<close>

definition quotes_after :: "bool \<Rightarrow> string \<Rightarrow> bool" where
  "quotes_after in_quotes line = fold (\<lambda>c q. if c = CHR 0x22 then \<not> q else q) line in_quotes"

text \<open>Lines 112-118: the name and the count text of a header line.\<close>

definition header_parts :: "string \<Rightarrow> string \<times> string option" where
  "header_parts line =
     (let section_header = tl (takeWhile (\<lambda>c. c \<noteq> CHR '']'') line);
          parts = split_char CHR '':'' section_header
      in (strip (hd parts), if length parts > 1 then Some (strip (parts ! 1)) else None))"

text \<open>Lines 108-110 and 123-124: the section that is open, if any, is parsed.\<close>

definition close_section ::
  "'f float_ops \<Rightarrow> 'f TextParser \<Rightarrow> (string \<times> string option) option \<Rightarrow> string \<Rightarrow> 'f TextParser outcome" where
  "close_section ops p current_section current_content =
     (case current_section of
        None \<Rightarrow> Returns p
      | Some (name, count_str) \<Rightarrow> parse_section ops p name count_str current_content)"

text \<open>Lines 96-124, the loop over the lines of the file and the call after it.\<close>

fun parse_lines ::
  "'f float_ops \<Rightarrow> 'f TextParser \<Rightarrow> (string \<times> string option) option \<Rightarrow> string \<Rightarrow> bool \<Rightarrow> string list
     \<Rightarrow> 'f TextParser outcome" where
  "parse_lines ops p current_section current_content in_quotes [] =
     close_section ops p current_section current_content"
| "parse_lines ops p current_section current_content in_quotes (raw # rest) =
     (let line = strip raw
      in if line = [] then parse_lines ops p current_section current_content in_quotes rest
         else
           (let in_quotes' = quotes_after in_quotes line
            in if \<not> in_quotes' \<and> startswith line ''['' \<and> CHR '']'' \<in> set line
               then
                 (case close_section ops p current_section current_content of
                    Raises e p' \<Rightarrow> Raises e p'
                  | Returns p' \<Rightarrow>
                      parse_lines ops p' (Some (header_parts line))
                        (if current_section \<noteq> None then [] else current_content) in_quotes' rest)
               else if current_section \<noteq> None
               then parse_lines ops p current_section (current_content @ line @ [CHR 0x0A]) in_quotes' rest
               else parse_lines ops p current_section current_content in_quotes' rest))"

text \<open>
  \<open>parse_file\<close> on the text of the file; existence and reading of the file belong to
  the file system.  It returns \<open>self.sections\<close>: \<open>Inr\<close> is the returned dictionary with
  the parser after the call, \<open>Inl\<close> the exception with the parser as it was left.
\<close>

definition parse_file ::
  "'f float_ops \<Rightarrow> 'f TextParser \<Rightarrow> string \<Rightarrow> string
     \<Rightarrow> exn \<times> 'f TextParser + (string \<rightharpoonup> 'f TextSection) \<times> 'f TextParser" where
  "parse_file ops p path content =
     (case parse_lines ops (p\<lparr>filepath := Some path\<rparr>) None [] False (split_char (CHR 0x0A) content) of
        Raises e p' \<Rightarrow> Inl (e, p')
      | Returns p' \<Rightarrow> Inr (sections p', p'))"

section \<open>Definitions used in the statements\<close>

text \<open>What \<open>add_field\<close> leaves untouched: the stream, the line budget, the line counter
  and the header text.\<close>

definition frame :: "TextWriter \<Rightarrow> TextWriter \<Rightarrow> bool" where
  "frame w w' = (fp w' = fp w \<and> line_count w' = line_count w \<and> current_line w' = current_line w
     \<and> block_name w' = block_name w)"

subsection \<open>The text of a finished section\<close>

text \<open>The number of entries that one data line takes.\<close>

definition stride :: "TextFieldW list \<Rightarrow> nat" where
  "stride flds = sum_list (map (\<lambda>field. length (type_widths field)) flds)"

text \<open>The text that the loop over the fields writes for the data line whose first entry
  is at \<open>entry_index\<close>.\<close>

definition row_text :: "TypeEntry list \<Rightarrow> TextFieldW list \<Rightarrow> nat \<Rightarrow> string" where
  "row_text entries flds entry_index =
     (case write_fields entries flds [] entry_index of Inr (t, _) \<Rightarrow> t | Inl _ \<Rightarrow> [])"

text \<open>After the data line with index \<open>i\<close> of \<open>n\<close>, the header is repeated when the line is
  an 80th one and at least 10 lines remain.\<close>

definition repeats_after :: "int \<Rightarrow> nat \<Rightarrow> bool" where
  "repeats_after n i = ((int i + 1) mod 80 = 0 \<and> 10 \<le> n - (int i + 1))"

text \<open>The data line with index \<open>i\<close> of a section of \<open>n\<close> lines, with what follows it
  before the next data line.\<close>

definition line_text :: "TextFieldW list \<Rightarrow> TypeEntry list \<Rightarrow> int \<Rightarrow> nat \<Rightarrow> string" where
  "line_text flds entries n i =
     ''   '' @ row_text entries flds (i * stride flds) @ [CHR 0x0A]
     @ (if repeats_after n i then sep_line flds @ rep_line flds @ sep_line flds else [])"

text \<open>The calls that fill a section, and the number of lines that a list of calls
  closes.\<close>

fun is_row_call :: "'f wcall \<Rightarrow> bool" where
  "is_row_call (AddField spec vals) = True"
| "is_row_call AddEndLine = True"
| "is_row_call c = False"

fun end_lines :: "'f wcall list \<Rightarrow> nat" where
  "end_lines [] = 0"
| "end_lines (AddEndLine # cs) = Suc (end_lines cs)"
| "end_lines (c # cs) = end_lines cs"

text \<open>A token as the tokenizer sees it: a text that is not empty, has no whitespace
  outside double quotes and closes every double quote it opens.\<close>

fun token_body :: "bool \<Rightarrow> string \<Rightarrow> bool" where
  "token_body in_quotes [] = (\<not> in_quotes)"
| "token_body in_quotes (c # cs) =
     (if c = CHR 0x22 then token_body (\<not> in_quotes) cs
      else if isspace c \<and> \<not> in_quotes then False
      else token_body in_quotes cs)"

definition is_token :: "string \<Rightarrow> bool" where
  "is_token t = (t \<noteq> [] \<and> token_body False t)"

text \<open>
  The sections of a text, as lines 96-124 find them: for each header line that is met
  outside quotes, the name and the count text of the header and the lines that follow it
  up to the next header.  The arguments are those of \<open>parse_lines\<close> without the parser.
\<close>

fun split_sections ::
  "(string \<times> string option) option \<Rightarrow> string \<Rightarrow> bool \<Rightarrow> string list
     \<Rightarrow> (string \<times> string option \<times> string) list" where
  "split_sections current_section current_content in_quotes [] =
     (case current_section of
        None \<Rightarrow> []
      | Some (name, count_str) \<Rightarrow> [(name, count_str, current_content)])"
| "split_sections current_section current_content in_quotes (raw # rest) =
     (if strip raw = [] then split_sections current_section current_content in_quotes rest
      else if \<not> quotes_after in_quotes (strip raw) \<and> take 1 (strip raw) = ''[''
              \<and> CHR '']'' \<in> set (strip raw)
      then (case current_section of
              None \<Rightarrow> []
            | Some (name, count_str) \<Rightarrow> [(name, count_str, current_content)])
           @ split_sections (Some (header_parts (strip raw)))
               (if current_section \<noteq> None then [] else current_content)
               (quotes_after in_quotes (strip raw)) rest
      else if current_section \<noteq> None
      then split_sections current_section (current_content @ strip raw @ [CHR 0x0A])
             (quotes_after in_quotes (strip raw)) rest
      else split_sections current_section current_content (quotes_after in_quotes (strip raw)) rest)"

text \<open>The sections of a whole text.\<close>

definition sections_of :: "string \<Rightarrow> (string \<times> string option \<times> string) list" where
  "sections_of text = split_sections None [] False (split_char (CHR 0x0A) text)"

text \<open>Sections parsed one after the other, up to the first that raises.\<close>

fun parse_sections ::
  "'f float_ops \<Rightarrow> 'f TextParser \<Rightarrow> (string \<times> string option \<times> string) list \<Rightarrow> 'f TextParser outcome" where
  "parse_sections ops p [] = Returns p"
| "parse_sections ops p ((name, count_str, content) # rest) =
     (case parse_section ops p name count_str content of
        Raises e p' \<Rightarrow> Raises e p'
      | Returns p' \<Rightarrow> parse_sections ops p' rest)"

text \<open>The dictionary with every section of a list decoded and stored under its name, a
  later section replacing an earlier one of the same name.\<close>

definition store_all ::
  "'f float_ops \<Rightarrow> (string \<rightharpoonup> 'f TextSection) \<Rightarrow> (string \<times> string option \<times> string) list
     \<Rightarrow> (string \<rightharpoonup> 'f TextSection)" where
  "store_all ops m secs =
     foldl (\<lambda>m (name, count_str, content). m(name \<mapsto> projr (decode_section ops name count_str content)))
       m secs"

text \<open>Two example documents: two sections that decode, and a second section with one
  row where two are declared.\<close>

definition two_sections_text :: string where
  "two_sections_text =
     ''[ Foo : 1 ]\<newline> { A:d }\<newline>// --- \<newline>   3 \<newline>\<newline>[ Bar ]\<newline>{ X:ss }\<newline>a b\<newline>''"

definition short_section_text :: string where
  "short_section_text = ''[ Foo : 1 ]\<newline>{ A:d }\<newline>3\<newline>[ Bar : 2 ]\<newline>{ X:d }\<newline>1\<newline>''"

subsection \<open>Example writers\<close>

text \<open>A writer with an open, empty stream.\<close>

definition w_open :: TextWriter where
  "w_open = TextWriter_init\<lparr>fp := Some []\<rparr>"

text \<open>A section declared with 90 lines, 89 of them closed.\<close>

definition ninety_lines :: TextWriter where
  "ninety_lines = state_of (run whole_ops w_open (AddHeader ''S'' 90 # replicate 89 AddEndLine))"

section \<open>Properties\<close>

subsection \<open>Integer formatting\<close>

lemma length_hex_nat: "n < 16 ^ k \<Longrightarrow> 0 < k \<Longrightarrow> length (hex_nat n) \<le> k"
proof (induction n arbitrary: k rule: hex_nat.induct)
  case (1 n)
  show ?case
  proof (cases "n < 16")
    case True
    with 1(3) show ?thesis by (simp add: hex_nat.simps [of n])
  next
    case False
    then obtain k' where k: "k = Suc k'"
      using 1(3) by (cases k) auto
    have "k' \<noteq> 0" using False 1(2) k by (cases k') auto
    moreover have "n div 16 < 16 ^ k'"
      using 1(2) k by (simp add: less_mult_imp_div_less mult.commute)
    ultimately have "length (hex_nat (n div 16)) \<le> k'"
      using 1(1) [OF False] by simp
    with False k show ?thesis by (simp add: hex_nat.simps [of n])
  qed
qed

lemma digit_char_hex: "d < 16 \<Longrightarrow> is_upper_hex (digit_char d) \<and> hex_digit_val (digit_char d) = d"
proof -
  assume "d < 16"
  then have "d = 0 \<or> d = 1 \<or> d = 2 \<or> d = 3 \<or> d = 4 \<or> d = 5 \<or> d = 6 \<or> d = 7 \<or> d = 8
      \<or> d = 9 \<or> d = 10 \<or> d = 11 \<or> d = 12 \<or> d = 13 \<or> d = 14 \<or> d = 15" by arith
  then show ?thesis
    by (auto simp: digit_char_def is_upper_hex_def hex_digit_val_def)
qed

lemma hex_nat_digits: "list_all is_upper_hex (hex_nat n)"
proof (induction n rule: hex_nat.induct)
  case (1 n)
  then show ?case
    by (cases "n < 16") (simp_all add: hex_nat.simps [of n] digit_char_hex)
qed

lemma hex_val_snoc: "hex_val (s @ [c]) = 16 * hex_val s + hex_digit_val c"
  by (simp add: hex_val_def)

lemma hex_val_hex_nat: "hex_val (hex_nat n) = n"
proof (induction n rule: hex_nat.induct)
  case (1 n)
  show ?case
  proof (cases "n < 16")
    case True
    then show ?thesis
      by (simp add: hex_nat.simps [of n] hex_val_def digit_char_hex)
  next
    case False
    with 1 show ?thesis
      by (simp add: hex_nat.simps [of n] hex_val_snoc digit_char_hex)
  qed
qed

lemma hex_val_zeros: "hex_val (replicate k CHR ''0'' @ s) = hex_val s"
proof (induction k)
  case 0
  show ?case by simp
next
  case (Suc k)
  have "hex_val (CHR ''0'' # t) = hex_val t" for t
  proof (induction t rule: rev_induct)
    case Nil
    show ?case by (simp add: hex_val_def hex_digit_val_def)
  next
    case (snoc c t)
    have "hex_val (CHR ''0'' # t @ [c]) = hex_val ((CHR ''0'' # t) @ [c])" by simp
    also have "\<dots> = 16 * hex_val (CHR ''0'' # t) + hex_digit_val c" by (rule hex_val_snoc)
    finally show ?case by (simp add: snoc hex_val_snoc)
  qed
  with Suc show ?case by simp
qed

lemma fmt_08X_word:
  assumes "0 \<le> n" "n < 2 ^ 32"
  shows "length (fmt_08X n) = 8" "list_all is_upper_hex (fmt_08X n)" "int (hex_val (fmt_08X n)) = n"
proof -
  have "nat n < 16 ^ 8" using assms by simp
  then have len: "length (hex_nat (nat n)) \<le> 8" by (rule length_hex_nat) simp
  then show "length (fmt_08X n) = 8" using assms by (simp add: fmt_08X_def zfill_def)
  show "list_all is_upper_hex (fmt_08X n)"
  proof -
    have "list_all is_upper_hex (replicate k CHR ''0'')" for k
      by (induction k) (simp_all add: is_upper_hex_def)
    then show ?thesis
      using assms by (simp add: fmt_08X_def zfill_def hex_nat_digits)
  qed
  show "int (hex_val (fmt_08X n)) = n"
    using assms by (simp add: fmt_08X_def zfill_def hex_val_zeros hex_val_hex_nat)
qed

subsection \<open>Guid rendering\<close>

lemma and_low32: "(n::int) AND 0xFFFFFFFF = n mod 2 ^ 32"
proof -
  have "(0xFFFFFFFF::int) = mask 32" by (simp add: mask_eq_exp_minus_1)
  then show ?thesis by (simp only: flip: take_bit_eq_mask) (simp add: take_bit_eq_mod)
qed

lemma hex_nat_step:
  "hex_nat n = (if n < 16 then [digit_char n] else hex_nat (n div 16) @ [digit_char (n mod 16)])"
  by (rule hex_nat.simps)

lemmas hex_nat_eval =
  hex_nat_step [of "numeral k" for k] hex_nat_step [of "Suc 0"] hex_nat_step [of 0]

lemma render_guid_example:
  "render ops (Some GUID) (PInt 0x0123456789ABCDEF) = Inr (quoted ''01234567:89ABCDEF'', False, False)"
proof -
  have a: "(0x0123456789ABCDEF::int) div 2 ^ 32 mod 2 ^ 32 = 0x01234567" by simp
  have b: "(0x0123456789ABCDEF::int) mod 2 ^ 32 = 0x89ABCDEF" by simp
  have c: "fmt_08X 0x01234567 = ''01234567''"
    by (simp add: fmt_08X_def zfill_def hex_nat_eval digit_char_def)
  have d: "fmt_08X 0x89ABCDEF = ''89ABCDEF''"
    by (simp add: fmt_08X_def zfill_def hex_nat_eval digit_char_def)
  have "render ops (Some GUID) (PInt 0x0123456789ABCDEF)
      = Inr (quoted (fmt_08X (0x0123456789ABCDEF div 2 ^ 32 mod 2 ^ 32) @ '':''
               @ fmt_08X (0x0123456789ABCDEF mod 2 ^ 32)), False, False)"
    by (simp only: render.simps Let_def and_low32 drop_bit_eq_div)
  then show ?thesis
    by (simp only: a b c d) simp
qed

lemma add_entry_val:
  assumes "render ops data_type v = Inr (txt, False, neg)"
  shows "\<exists>w'. add_entry ops w fi eidx j v data_type = Returns w'
     \<and> map val (type_entries w') = map val (type_entries w) @ [txt]
     \<and> block_data w' = block_data w @ txt"
  using assms by (simp add: add_entry_def Let_def)

text \<open>
  C7 (GUID rendering).  A Guid component given as text is rendered as that text between
  double quotes.  Given as an integer \<open>n\<close>, it is rendered as two groups joined by a colon,
  between double quotes: each group is exactly eight upper-case hexadecimal digits, the
  first with the value of bits 32 to 63 of \<open>n\<close> and the second with the value of bits 0 to
  31.  The integer \<open>0x0123456789ABCDEF\<close> is rendered as \<open>"01234567:89ABCDEF"\<close>.  The
  double quote is the character \<open>CHR 0x22\<close>; the rendered text is the text of the entry
  that the inner loop of \<open>add_field\<close> appends.
\<close>

theorem guid_rendering:
  "render ops (Some GUID) (PStr s) = Inr (CHR 0x22 # s @ [CHR 0x22], False, False)
   \<and> render ops (Some GUID) (PInt n)
       = Inr (CHR 0x22 # fmt_08X (n div 2 ^ 32 mod 2 ^ 32) @ CHR '':'' # fmt_08X (n mod 2 ^ 32)
              @ [CHR 0x22], False, False)
   \<and> length (fmt_08X (n div 2 ^ 32 mod 2 ^ 32)) = 8
   \<and> list_all is_upper_hex (fmt_08X (n div 2 ^ 32 mod 2 ^ 32))
   \<and> int (hex_val (fmt_08X (n div 2 ^ 32 mod 2 ^ 32))) = n div 2 ^ 32 mod 2 ^ 32
   \<and> length (fmt_08X (n mod 2 ^ 32)) = 8
   \<and> list_all is_upper_hex (fmt_08X (n mod 2 ^ 32))
   \<and> int (hex_val (fmt_08X (n mod 2 ^ 32))) = n mod 2 ^ 32
   \<and> render ops (Some GUID) (PInt 0x0123456789ABCDEF)
       = Inr (CHR 0x22 # ''01234567:89ABCDEF'' @ [CHR 0x22], False, False)
   \<and> map val (type_entries (state_of (add_entry ops w fi eidx j (PStr s) (Some GUID))))
       = map val (type_entries w) @ [CHR 0x22 # s @ [CHR 0x22]]
   \<and> map val (type_entries (state_of (add_entry ops w fi eidx j (PInt n) (Some GUID))))
       = map val (type_entries w)
         @ [CHR 0x22 # fmt_08X (n div 2 ^ 32 mod 2 ^ 32) @ CHR '':'' # fmt_08X (n mod 2 ^ 32) @ [CHR 0x22]]"
proof -
  have hi: "0 \<le> n div 2 ^ 32 mod 2 ^ 32" "n div 2 ^ 32 mod 2 ^ 32 < 2 ^ 32" by simp_all
  have lo: "0 \<le> n mod 2 ^ 32" "n mod 2 ^ 32 < 2 ^ 32" by simp_all
  have "render ops (Some GUID) (PInt n)
       = Inr (quoted (fmt_08X (n div 2 ^ 32 mod 2 ^ 32) @ '':'' @ fmt_08X (n mod 2 ^ 32)), False, False)"
    by (simp only: render.simps Let_def and_low32 drop_bit_eq_div)
  then have r: "render ops (Some GUID) (PInt n)
       = Inr (CHR 0x22 # fmt_08X (n div 2 ^ 32 mod 2 ^ 32) @ CHR '':'' # fmt_08X (n mod 2 ^ 32)
              @ [CHR 0x22], False, False)"
    by (simp add: quoted_def)
  have s: "render ops (Some GUID) (PStr s) = Inr (CHR 0x22 # s @ [CHR 0x22], False, False)"
    by (simp add: quoted_def)
  have x: "render ops (Some GUID) (PInt 0x0123456789ABCDEF)
       = Inr (CHR 0x22 # ''01234567:89ABCDEF'' @ [CHR 0x22], False, False)"
    using render_guid_example [of ops] by (simp add: quoted_def)
  have es: "map val (type_entries (state_of (add_entry ops w fi eidx j (PStr s) (Some GUID))))
       = map val (type_entries w) @ [CHR 0x22 # s @ [CHR 0x22]]"
    using add_entry_val [OF s, of w fi eidx j] by auto
  have en: "map val (type_entries (state_of (add_entry ops w fi eidx j (PInt n) (Some GUID))))
       = map val (type_entries w)
         @ [CHR 0x22 # fmt_08X (n div 2 ^ 32 mod 2 ^ 32) @ CHR '':'' # fmt_08X (n mod 2 ^ 32) @ [CHR 0x22]]"
    using add_entry_val [OF r, of w fi eidx j] by auto
  from s r fmt_08X_word [OF hi] fmt_08X_word [OF lo] x es en
  show ?thesis by (intro conjI)
qed

subsection \<open>What add_field leaves untouched\<close>

lemma frame_refl [simp]: "frame w w"
  by (simp add: frame_def)

lemma frame_trans: "frame w w1 \<Longrightarrow> frame w1 w2 \<Longrightarrow> frame w w2"
  by (simp add: frame_def)

lemma add_entry_frame: "frame w (state_of (add_entry ops w fi eidx j v ty))"
  by (simp add: add_entry_def frame_def Let_def split: sum.splits prod.splits)

lemma add_values_frame: "frame w (state_of (add_values ops w fi eidx j xs))"
proof (induction xs arbitrary: w j)
  case Nil
  show ?case by simp
next
  case (Cons x xs)
  obtain v ty where x: "x = (v, ty)" by (cases x)
  show ?case
  proof (cases "add_entry ops w fi eidx j v ty")
    case (Returns w')
    have "frame w w'" using add_entry_frame [of w ops fi eidx j v ty] Returns by simp
    moreover have "frame w' (state_of (add_values ops w' fi eidx (Suc j) xs))" by (rule Cons.IH)
    ultimately show ?thesis using Returns x by (simp add: frame_trans)
  next
    case (Raises e w')
    then show ?thesis using add_entry_frame [of w ops fi eidx j v ty] x by simp
  qed
qed

lemma add_spec_values_frame: "frame w (state_of (add_spec_values ops w fi eidx name tc vals))"
  by (simp add: add_spec_values_def Let_def add_values_frame)

lemma add_spec_frame: "frame w (state_of (add_spec ops w orig i spec vals))"
proof -
  have "frame (w\<lparr>wfields := fs, num_fields := k\<rparr>) (state_of (add_spec_values ops (w\<lparr>wfields := fs, num_fields := k\<rparr>) fi eidx name tc vals))"
    for fs k fi eidx name tc
    by (rule add_spec_values_frame)
  then have "frame w (state_of (add_spec_values ops (w\<lparr>wfields := fs, num_fields := k\<rparr>) fi eidx name tc vals))"
    for fs k fi eidx name tc
    by (simp add: frame_def)
  then show ?thesis
    by (simp add: add_spec_def Let_def add_spec_values_frame)
qed

lemma add_specs_frame: "frame w (state_of (add_specs ops w orig i specs vals))"
proof (induction specs arbitrary: w i vals)
  case Nil
  show ?case by simp
next
  case (Cons spec specs)
  show ?case
  proof (cases "add_spec ops w orig i spec vals")
    case (Returns w')
    have "frame w w'" using add_spec_frame [of w ops orig i spec vals] Returns by simp
    moreover have "frame w' (state_of (add_specs ops w' orig (Suc i) specs (drop (length (spec_type_chars spec)) vals)))"
      by (rule Cons.IH)
    ultimately show ?thesis using Returns by (simp add: frame_trans)
  next
    case (Raises e w')
    then show ?thesis using add_spec_frame [of w ops orig i spec vals] by simp
  qed
qed

lemma add_field_frame: "frame w (state_of (add_field ops w spec vals))"
proof -
  have "frame w (state_of (add_specs ops w (current_field w) 0 (split_ws spec) vals))"
    by (rule add_specs_frame)
  then show ?thesis
    by (auto simp: add_field_def Let_def frame_def split: sum.splits outcome.splits)
qed

lemma add_field_too_many:
  "\<not> current_line w < line_count w \<Longrightarrow>
     add_field ops w spec vals = Raises (AssertionError ''Too many lines added'') w"
  by (simp add: add_field_def)

subsection \<open>The loops of add_end_line\<close>

lemma field_values_str_index:
  "field_values_str field entries tj ws fs cw ei = Inr (fs', cw', ei') \<Longrightarrow> ei' = ei + length ws"
proof (induction ws arbitrary: tj fs cw ei)
  case Nil
  then show ?case by simp
next
  case (Cons a ws)
  from Cons.prems show ?case
    by (auto simp: Let_def split: if_splits dest!: Cons.IH)
qed

lemma write_fields_acc:
  "write_fields entries flds (out @ acc) ei =
     (case write_fields entries flds acc ei of
        Inl (e, t) \<Rightarrow> Inl (e, out @ t)
      | Inr (t, ei') \<Rightarrow> Inr (out @ t, ei'))"
proof (induction flds arbitrary: acc ei)
  case Nil
  show ?case by simp
next
  case (Cons field rest)
  show ?case
    using Cons.IH [of "acc @ x" for x]
    by (simp add: Let_def split: sum.splits prod.splits)
qed

lemma write_fields_index:
  "write_fields entries flds acc ei = Inr (t, ei') \<Longrightarrow> ei' = ei + stride flds"
proof (induction flds arbitrary: acc ei)
  case Nil
  then show ?case by (simp add: stride_def)
next
  case (Cons field rest)
  from Cons.prems show ?case
    by (auto simp: Let_def stride_def split: sum.splits prod.splits if_splits
        dest!: Cons.IH field_values_str_index)
qed

lemma write_fields_row_text:
  assumes "write_fields entries flds acc ei = Inr (t, ei')"
  shows "t = acc @ row_text entries flds ei"
proof -
  have "write_fields entries flds (acc @ []) ei =
     (case write_fields entries flds [] ei of
        Inl (e, t) \<Rightarrow> Inl (e, acc @ t)
      | Inr (t, ei') \<Rightarrow> Inr (acc @ t, ei'))"
    by (rule write_fields_acc)
  with assms show ?thesis
    by (auto simp: row_text_def split: sum.splits prod.splits)
qed

lemma repeat_header_iff: "repeat_header n i \<longleftrightarrow> repeats_after n i"
  by (auto simp: repeat_header_def repeats_after_def)

lemma write_lines_closed:
  "write_lines flds entries n [a..<b] out (a * stride flds) = Inr out' \<Longrightarrow>
     out' = out @ concat (map (line_text flds entries n) [a..<b])"
proof (induction "b - a" arbitrary: a out)
  case 0
  then show ?case by simp
next
  case (Suc k)
  then have ab: "a < b" and k: "k = b - Suc a" by auto
  have upt: "[a..<b] = a # [Suc a..<b]" using ab by (simp add: upt_conv_Cons)
  from Suc.prems obtain out1 ei' where
    wf: "write_fields entries flds (out @ ''   '') (a * stride flds) = Inr (out1, ei')"
    by (auto simp: upt split: sum.splits prod.splits)
  have ei': "ei' = Suc a * stride flds"
    using write_fields_index [OF wf] by simp
  have out1: "out1 = (out @ ''   '') @ row_text entries flds (a * stride flds)"
    by (rule write_fields_row_text [OF wf])
  have step: "out1 @ [CHR 0x0A] @ (if repeat_header n a then sep_line flds @ rep_line flds @ sep_line flds else [])
      = out @ line_text flds entries n a"
    by (simp add: out1 line_text_def repeat_header_iff)
  from Suc.prems have
    "write_lines flds entries n [Suc a..<b]
       (out1 @ [CHR 0x0A] @ (if repeat_header n a then sep_line flds @ rep_line flds @ sep_line flds else []))
       (Suc a * stride flds) = Inr out'"
    by (cases "repeat_header n a") (simp_all add: upt wf ei' Let_def del: mult_Suc)
  then have "out' = (out @ line_text flds entries n a) @ concat (map (line_text flds entries n) [Suc a..<b])"
    unfolding step using Suc.hyps(1) [OF k] by blast
  then show ?case by (simp add: upt)
qed

subsection \<open>The text written by add_end_line\<close>

lemma flush_section_counts:
  "line_count (state_of (flush_section w)) = line_count w
   \<and> current_line (state_of (flush_section w)) = current_line w
   \<and> block_name (state_of (flush_section w)) = block_name w"
  by (simp add: flush_section_def split: option.splits sum.splits prod.splits)

lemma flush_section_text:
  assumes "flush_section w = Returns w'" and "fp w = Some out"
  shows "fp w' = Some (out @ block_name w @ header_line (wfields w') @ sep_line (wfields w')
     @ concat (map (line_text (wfields w') (type_entries w) (line_count w)) [0..<nat (line_count w)])
     @ [CHR 0x0A])"
proof -
  from assms obtain flds out' where
    lay: "layout_fields (wfields w) = Inr flds" and
    wl: "write_lines flds (type_entries w) (line_count w) [0..<nat (line_count w)]
           (out @ block_name w @ header_line flds @ sep_line flds) (0 * stride flds) = Inr out'" and
    w': "w' = w\<lparr>wfields := flds, fp := Some (out' @ [CHR 0x0A])\<rparr>"
    by (auto simp: flush_section_def split: sum.splits prod.splits)
  from write_lines_closed [OF wl] show ?thesis
    by (simp add: w')
qed

lemma run_add_fields_frame:
  "frame w (state_of (run ops w (map (\<lambda>(spec, vals). AddField spec vals) adds)))"
proof (induction adds arbitrary: w)
  case Nil
  show ?case by simp
next
  case (Cons a adds)
  obtain spec vals where a: "a = (spec, vals)" by (cases a)
  show ?case
  proof (cases "add_field ops w spec vals")
    case (Returns w')
    have "frame w w'" using add_field_frame [of w ops spec vals] Returns by simp
    moreover have "frame w' (state_of (run ops w' (map (\<lambda>(spec, vals). AddField spec vals) adds)))"
      by (rule Cons.IH)
    ultimately show ?thesis using Returns a by (simp add: frame_trans)
  next
    case (Raises e w')
    then show ?thesis using add_field_frame [of w ops spec vals] a by simp
  qed
qed

text \<open>
  C4 (header repetition), as amended.  When \<open>add_end_line\<close> closes the last line of a
  section and returns, the stream has received the section header, the header line, the
  separator line and then, for each data line in order, the line itself followed by the
  separator line, the \<open>//\<close> repeat of the header and the separator line again exactly when
  the line is an 80th line and at least 10 data lines remain after it; a blank line ends
  the section.  For a count of 200 the header is repeated after lines 80 and 160 only, and
  it is never repeated when fewer than 10 lines remain.
\<close>

theorem header_repetition:
  assumes "add_end_line w = Returns w'" and "fp w = Some out"
    and "line_count w = 0 \<or> current_line w + 1 = line_count w"
  shows "fp w' = Some (out @ block_name w @ header_line (wfields w') @ sep_line (wfields w')
       @ concat (map (line_text (wfields w') (type_entries w) (line_count w)) [0..<nat (line_count w)])
       @ [CHR 0x0A])
     \<and> repeats_after n i = ((int i + 1) mod 80 = 0 \<and> 10 \<le> n - (int i + 1))
     \<and> repeats_after 200 i = (i = 79 \<or> i = 159)
     \<and> (n - (int i + 1) < 10 \<longrightarrow> \<not> repeats_after n i)"
proof -
  from assms(1,3) have "flush_section (w\<lparr>current_line := current_line w + 1, current_field := 0\<rparr>) = Returns w'"
    by (auto simp: add_end_line_def Let_def)
  from flush_section_text [OF this, of out] assms(2)
  have "fp w' = Some (out @ block_name w @ header_line (wfields w') @ sep_line (wfields w')
       @ concat (map (line_text (wfields w') (type_entries w) (line_count w)) [0..<nat (line_count w)])
       @ [CHR 0x0A])"
    by simp
  moreover have "repeats_after 200 i = (i = 79 \<or> i = 159)"
    unfolding repeats_after_def by presburger
  ultimately show ?thesis
    by (simp add: repeats_after_def)
qed

theorem header_repetition_witness:
  "add_end_line ninety_lines = Returns (state_of (add_end_line ninety_lines))
   \<and> fp ninety_lines = Some []
   \<and> current_line ninety_lines + 1 = line_count ninety_lines
   \<and> fp (state_of (add_end_line ninety_lines))
       = Some ([] @ block_name ninety_lines @  header_line (wfields (state_of (add_end_line ninety_lines)))
          @ sep_line (wfields (state_of (add_end_line ninety_lines)))
          @ concat (map (line_text (wfields (state_of (add_end_line ninety_lines))) (type_entries ninety_lines) (line_count ninety_lines))
                 [0..<nat (line_count ninety_lines)])
          @ [CHR 0x0A])
   \<and> (90 - (int 85 + 1) < (10::int) \<and> \<not> repeats_after 90 85)"
proof -
  have h1: "add_end_line ninety_lines = Returns (state_of (add_end_line ninety_lines))"
    by code_simp
  have h2: "fp ninety_lines = Some []" by code_simp
  have h3: "current_line ninety_lines + 1 = line_count ninety_lines" by code_simp
  have h4: "90 - (int 85 + 1) < (10::int)" by simp
  from header_repetition [OF h1 h2 disjI2 [OF h3], of 90 85] h1 h2 h3 h4
  show ?thesis by blast
qed

text \<open>
  C4 as stated fails: in a section of 90 lines the header is repeated after line 80,
  where 10 lines remain, not more than 10.
\<close>

theorem header_repetition_counterexample:
  "fp (state_of (run whole_ops w_open (AddHeader ''S'' 90 # replicate 90 AddEndLine)))
     = Some (''[ S : 90 ]\<newline> {  }\<newline>//  \<newline>''
        @ concat (replicate 80 ''   \<newline>'')
        @ ''//  \<newline>// \<newline>//  \<newline>''
        @ concat (replicate 10 ''   \<newline>'') @ ''\<newline>'')
   \<and> \<not> (10 < (90::int) - 80)"
  by code_simp

subsection \<open>Sections without a count, and unfinished sections\<close>

lemma run_rows_keep_stream:
  assumes "list_all is_row_call cs" and "0 \<le> current_line w"
    and "current_line w + int (end_lines cs) < line_count w"
  shows "fp (state_of (run ops w cs)) = fp w \<and> line_count (state_of (run ops w cs)) = line_count w"
  using assms
proof (induction cs arbitrary: w)
  case Nil
  show ?case by simp
next
  case (Cons c cs)
  show ?case
  proof (cases c)
    case (AddField spec vals)
    let ?o = "add_field ops w spec vals"
    have fr: "frame w (state_of ?o)" by (rule add_field_frame)
    show ?thesis
    proof (cases ?o)
      case (Returns w')
      with fr have f: "frame w w'" by simp
      have "fp (state_of (run ops w' cs)) = fp w' \<and> line_count (state_of (run ops w' cs)) = line_count w'"
        using Cons.prems f AddField by (intro Cons.IH) (simp_all add: frame_def)
      with f Returns AddField show ?thesis by (simp add: frame_def)
    next
      case (Raises e w')
      with fr AddField show ?thesis by (simp add: frame_def)
    qed
  next
    case AddEndLine
    let ?w' = "w\<lparr>current_line := current_line w + 1, current_field := 0\<rparr>"
    have step: "add_end_line w = Returns ?w'"
      using Cons.prems AddEndLine by (simp add: add_end_line_def Let_def)
    have "fp (state_of (run ops ?w' cs)) = fp ?w' \<and> line_count (state_of (run ops ?w' cs)) = line_count ?w'"
      using Cons.prems AddEndLine by (intro Cons.IH) simp_all
    with step AddEndLine show ?thesis by simp
  next
    case (AddHeader name count)
    with Cons.prems show ?thesis by simp
  next
    case CloseFile
    with Cons.prems show ?thesis by simp
  qed
qed

text \<open>
  C10 (a section without a count).  When \<open>add_header\<close> is called with a negative count
  it returns with the line budget set to 1 and the header text without a count.  After any
  \<open>add_field\<close> calls, the first \<open>add_end_line\<close> writes the section: when it returns,
  the stream has received the header without a count, the header line, the separator line,
  one data line and a blank line.  Any \<open>add_field\<close> after that \<open>add_end_line\<close> raises
  the assertion error "Too many lines added".
\<close>

theorem no_count_section:
  assumes "count < 0"
    and "w1 = state_of (add_header w name count)"
    and "w2 = state_of (run ops w1 (map (\<lambda>(spec, vals). AddField spec vals) adds))"
  shows "add_header w name count = Returns w1
    \<and> line_count w1 = 1
    \<and> block_name w1 = ''[ '' @ name @ '' ]\<newline>''
    \<and> add_end_line w2 = flush_section (w2\<lparr>current_line := 1, current_field := 0\<rparr>)
    \<and> add_field ops (state_of (add_end_line w2)) spec vals
        = Raises (AssertionError ''Too many lines added'') (state_of (add_end_line w2))
    \<and> (add_end_line w2 = Returns w3 \<and> fp w = Some out \<longrightarrow>
        fp w3 = Some (out @ ''[ '' @ name @ '' ]\<newline>'' @ header_line (wfields w3) @ sep_line (wfields w3)
          @ ''   '' @ row_text (type_entries w2) (wfields w3) 0 @ ''\<newline>'' @ ''\<newline>''))"
proof -
  have h: "add_header w name count = Returns w1"
    and w1: "line_count w1 = 1" "current_line w1 = 0" "block_name w1 = ''[ '' @ name @ '' ]\<newline>''"
      "fp w1 = fp w"
    using assms(1,2) by (simp_all add: add_header_def Let_def)
  have "frame w1 w2" unfolding assms(3) by (rule run_add_fields_frame)
  with w1 have w2: "line_count w2 = 1" "current_line w2 = 0" "block_name w2 = ''[ '' @ name @ '' ]\<newline>''"
      "fp w2 = fp w"
    by (simp_all add: frame_def)
  have e: "add_end_line w2 = flush_section (w2\<lparr>current_line := 1, current_field := 0\<rparr>)"
    using w2 by (simp add: add_end_line_def Let_def)
  have "\<not> current_line (state_of (add_end_line w2)) < line_count (state_of (add_end_line w2))"
    unfolding e using flush_section_counts [of "w2\<lparr>current_line := 1, current_field := 0\<rparr>"] w2
    by simp
  then have a: "add_field ops (state_of (add_end_line w2)) spec vals
        = Raises (AssertionError ''Too many lines added'') (state_of (add_end_line w2))"
    by (rule add_field_too_many)
  have t: "fp w3 = Some (out @ ''[ '' @ name @ '' ]\<newline>'' @ header_line (wfields w3) @ sep_line (wfields w3)
          @ ''   '' @ row_text (type_entries w2) (wfields w3) 0 @ ''\<newline>'' @ ''\<newline>'')"
    if r: "add_end_line w2 = Returns w3" and o: "fp w = Some out"
  proof -
    have "flush_section (w2\<lparr>current_line := 1, current_field := 0\<rparr>) = Returns w3"
      using r e by simp
    from flush_section_text [OF this, of out] w2 o
    show ?thesis
      by (simp add: line_text_def repeats_after_def)
  qed
  from h w1 e a t show ?thesis by blast
qed

theorem no_count_section_witness:
  "(-1::int) < 0
   \<and> add_header w_open ''Foo'' (-1) = Returns (state_of (add_header w_open ''Foo'' (-1)))
   \<and> line_count (state_of (add_header w_open ''Foo'' (-1))) = 1
   \<and> add_end_line (state_of (run whole_ops (state_of (add_header w_open ''Foo'' (-1))) [AddField ''A:d'' [PInt 1]]))
       = Returns (state_of (run whole_ops w_open [AddHeader ''Foo'' (-1), AddField ''A:d'' [PInt 1], AddEndLine]))
   \<and> fp w_open = Some []
   \<and> fp (state_of (run whole_ops w_open [AddHeader ''Foo'' (-1), AddField ''A:d'' [PInt 1], AddEndLine]))
       = Some ''[ Foo ]\<newline> { A:d }\<newline>// --- \<newline>   1  \<newline>\<newline>''
   \<and> raised (run whole_ops w_open [AddHeader ''Foo'' (-1), AddField ''A:d'' [PInt 1], AddEndLine,
         AddField ''A:d'' [PInt 2]])
       = Some (AssertionError ''Too many lines added'')"
proof -
  let ?w1 = "state_of (add_header w_open ''Foo'' (-1))"
  let ?w2 = "state_of (run whole_ops ?w1 (map (\<lambda>(spec, vals). AddField spec vals) [(''A:d'', [PInt 1])]))"
  let ?w3 = "state_of (run whole_ops w_open [AddHeader ''Foo'' (-1), AddField ''A:d'' [PInt 1], AddEndLine])"
  have c: "(-1::int) < 0" by simp
  note t = no_count_section [OF c refl refl, of w_open "''Foo''" whole_ops "[(''A:d'', [PInt 1])]"
      "''A:d''" "[PInt 2]" ?w3 "[]"]
  have r: "add_end_line ?w2 = Returns ?w3" by code_simp
  have o: "fp w_open = Some []" by code_simp
  have f: "fp ?w3 = Some ''[ Foo ]\<newline> { A:d }\<newline>// --- \<newline>   1  \<newline>\<newline>''" by code_simp
  have a: "raised (run whole_ops w_open [AddHeader ''Foo'' (-1), AddField ''A:d'' [PInt 1], AddEndLine,
         AddField ''A:d'' [PInt 2]]) = Some (AssertionError ''Too many lines added'')" by code_simp
  have r': "add_end_line (state_of (run whole_ops ?w1 [AddField ''A:d'' [PInt 1]])) = Returns ?w3"
    using r by simp
  from t c r' o f a show ?thesis by simp
qed

text \<open>
  C2 (column alignment) at the rows 555 and -3 of a section with the single field
  \<open>A:d\<close>: the first value is written four characters wide and the second three
  characters wide.  The width of the column was measured on 555 before any negative value
  was seen, and the space for the sign is added when the section is written.
\<close>

theorem alignment_failing_input:
  "run whole_ops w_open [AddHeader ''S'' 2, AddField ''A:d'' [PInt 555], AddEndLine,
       AddField ''A:d'' [PInt (-3)], AddEndLine]
     = Returns (state_of (run whole_ops w_open [AddHeader ''S'' 2, AddField ''A:d'' [PInt 555], AddEndLine,
       AddField ''A:d'' [PInt (-3)], AddEndLine]))
   \<and> fp (state_of (run whole_ops w_open [AddHeader ''S'' 2, AddField ''A:d'' [PInt 555], AddEndLine,
       AddField ''A:d'' [PInt (-3)], AddEndLine]))
     = Some ''[ S : 2 ]\<newline> { A:d }\<newline>// --- \<newline>    555\<newline>   -3 \<newline>\<newline>''"
  by code_simp

subsection \<open>Tokens\<close>

lemma isspace_quote [simp]: "\<not> isspace (CHR 0x22)"
  by (simp add: isspace_def)

lemma tokens_from_body:
  "token_body in_quotes t \<Longrightarrow>
     tokens_from current in_quotes (t @ rest) = tokens_from (current @ t) False rest"
proof (induction t arbitrary: current in_quotes)
  case Nil
  then show ?case by simp
next
  case (Cons c t)
  show ?case
  proof (cases "c = CHR 0x22")
    case True
    with Cons.prems have "token_body (\<not> in_quotes) t" by simp
    from Cons.IH [OF this, of "current @ [c]"] True show ?thesis by simp
  next
    case False
    with Cons.prems have b: "token_body in_quotes t" and n: "\<not> (isspace c \<and> \<not> in_quotes)"
      by (simp_all split: if_splits)
    from Cons.IH [OF b, of "current @ [c]"] False n show ?thesis by auto
  qed
qed

lemma isspace_not_quote: "isspace c \<Longrightarrow> c \<noteq> CHR 0x22"
  by (auto simp: isspace_def)

lemma tokens_from_pad_empty:
  "list_all isspace pad \<Longrightarrow> tokens_from [] False (pad @ rest) = tokens_from [] False rest"
  by (induction pad) (auto dest: isspace_not_quote)

lemma tokens_from_pad:
  "list_all isspace pad \<Longrightarrow> pad \<noteq> [] \<Longrightarrow> current \<noteq> [] \<Longrightarrow>
     tokens_from current False (pad @ rest) = current # tokens_from [] False rest"
  by (cases pad) (auto simp: tokens_from_pad_empty dest: isspace_not_quote)

lemma tokens_from_pad_end:
  "list_all isspace pad \<Longrightarrow> current \<noteq> [] \<Longrightarrow> tokens_from current False pad = [current]"
  using tokens_from_pad [of pad current "[]"] by (cases pad) simp_all

lemma tokenize_padded:
  assumes "list_all is_token (map fst tps)"
    and "list_all (list_all isspace) (map snd tps)"
    and "list_all (\<lambda>pad. pad \<noteq> []) (map snd (butlast tps))"
  shows "tokens_from [] False (concat (map (\<lambda>(t, pad). t @ pad) tps)) = map fst tps"
  using assms
proof (induction tps)
  case Nil
  show ?case by simp
next
  case (Cons tp tps)
  obtain t pad where tp: "tp = (t, pad)" by (cases tp)
  from Cons.prems tp have t: "t \<noteq> []" "token_body False t" and pad: "list_all isspace pad"
    by (simp_all add: is_token_def)
  have step: "tokens_from [] False (t @ pad @ rest) = tokens_from t False (pad @ rest)" for rest
    using tokens_from_body [OF t(2), of "[]" "pad @ rest"] by simp
  show ?case
  proof (cases "tps = []")
    case True
    then show ?thesis
      using step [of "[]"] tokens_from_pad_end [OF pad t(1)] tp by simp
  next
    case False
    with Cons.prems tp have "pad \<noteq> []" by simp
    moreover have "tokens_from [] False (concat (map (\<lambda>(t, pad). t @ pad) tps)) = map fst tps"
      using Cons.prems False by (intro Cons.IH) simp_all
    ultimately show ?thesis
      using step tokens_from_pad [OF pad _ t(1)] tp by simp
  qed
qed

lemma token_body_inside: "CHR 0x22 \<notin> set s \<Longrightarrow> token_body True (s @ [CHR 0x22])"
  by (induction s) auto

lemma is_token_quoted: "CHR 0x22 \<notin> set s \<Longrightarrow> is_token (CHR 0x22 # s @ [CHR 0x22])"
  by (simp add: is_token_def token_body_inside)

lemma token_body_plain:
  "CHR 0x22 \<notin> set t \<Longrightarrow> \<forall>c\<in>set t. \<not> isspace c \<Longrightarrow> token_body False t"
  by (induction t) auto

subsection \<open>Integers and quoted strings read back\<close>

lemma digit_char_dec:
  assumes "d < 10"
  shows "is_dec_digit (digit_char d)" "dec_digit_val (digit_char d) = d"
    "\<not> isspace (digit_char d)" "digit_char d \<noteq> CHR 0x22"
proof -
  from assms have "d = 0 \<or> d = 1 \<or> d = 2 \<or> d = 3 \<or> d = 4 \<or> d = 5 \<or> d = 6 \<or> d = 7 \<or> d = 8 \<or> d = 9"
    by arith
  then show "is_dec_digit (digit_char d)" "dec_digit_val (digit_char d) = d"
    "\<not> isspace (digit_char d)" "digit_char d \<noteq> CHR 0x22"
    by (auto simp: digit_char_def is_dec_digit_def dec_digit_val_def isspace_def)
qed

lemma is_dec_digit_plain:
  "is_dec_digit c \<Longrightarrow> \<not> isspace c \<and> c \<noteq> CHR 0x22 \<and> c \<noteq> CHR ''_'' \<and> c \<noteq> CHR ''+'' \<and> c \<noteq> CHR ''-''"
  by (auto simp: is_dec_digit_def isspace_def)

lemma dec_nat_digits: "list_all is_dec_digit (dec_nat n)"
proof (induction n rule: dec_nat.induct)
  case (1 n)
  then show ?case
    by (cases "n < 10") (simp_all add: dec_nat.simps [of n] digit_char_dec)
qed

lemma dec_nat_not_Nil: "dec_nat n \<noteq> []"
  by (simp add: dec_nat.simps [of n])

lemma py_digits_plain:
  "list_all is_dec_digit ds \<Longrightarrow>
     py_digits acc ds = Some (foldl (\<lambda>a c. 10 * a + dec_digit_val c) acc ds)"
  by (induction acc ds rule: py_digits.induct) simp_all

lemma py_nat_plain:
  "list_all is_dec_digit ds \<Longrightarrow> ds \<noteq> [] \<Longrightarrow>
     py_nat ds = Some (foldl (\<lambda>a c. 10 * a + dec_digit_val c) 0 ds)"
  by (cases ds) (simp_all add: py_nat_def py_digits_plain)

lemma foldl_dec_nat: "foldl (\<lambda>a c. 10 * a + dec_digit_val c) 0 (dec_nat n) = n"
proof (induction n rule: dec_nat.induct)
  case (1 n)
  show ?case
  proof (cases "n < 10")
    case True
    then show ?thesis by (simp add: dec_nat.simps [of n] digit_char_dec)
  next
    case False
    with 1 show ?thesis by (simp add: dec_nat.simps [of n] digit_char_dec)
  qed
qed

lemma py_nat_dec_nat: "py_nat (dec_nat n) = Some n"
  by (simp add: py_nat_plain dec_nat_digits dec_nat_not_Nil foldl_dec_nat)

lemma strip_id:
  assumes "s \<noteq> []" "\<not> isspace (hd s)" "\<not> isspace (last s)"
  shows "strip s = s"
proof -
  have a: "dropWhile isspace s = s" using assms(1,2) by (cases s) simp_all
  have "rev s \<noteq> []" "\<not> isspace (hd (rev s))" using assms(1,3) by (simp_all add: hd_rev)
  then have "dropWhile isspace (rev s) = rev s" by (cases "rev s") simp_all
  with a show ?thesis by (simp add: strip_def)
qed

lemma dec_nat_ends:
  "is_dec_digit (hd (dec_nat n))" "is_dec_digit (last (dec_nat n))"
proof -
  have "\<forall>c\<in>set (dec_nat n). is_dec_digit c"
    using dec_nat_digits [of n] by (simp add: list_all_iff)
  then show "is_dec_digit (hd (dec_nat n))" "is_dec_digit (last (dec_nat n))"
    using dec_nat_not_Nil [of n] by simp_all
qed

lemma minus_plain: "\<not> isspace (CHR ''-'')" "CHR ''-'' \<noteq> CHR 0x22" "CHR ''-'' \<noteq> CHR ''+''"
  by (simp_all add: isspace_def)

lemma dec_nat_plain: "c \<in> set (dec_nat n) \<Longrightarrow> \<not> isspace c \<and> c \<noteq> CHR 0x22"
  using dec_nat_digits [of n] is_dec_digit_plain [of c] by (simp add: list_all_iff)

lemma py_int_str_int: "py_int (str_int n) = Some n"
proof (cases "n < 0")
  case True
  let ?ds = "dec_nat (nat (- n))"
  have "\<not> isspace (last ?ds)"
    using dec_nat_ends(2) [of "nat (- n)"] is_dec_digit_plain by blast
  then have "strip (CHR ''-'' # ?ds) = CHR ''-'' # ?ds"
    using dec_nat_not_Nil [of "nat (- n)"] minus_plain(1)
    by (intro strip_id) simp_all
  then have "py_int (CHR ''-'' # ?ds) = map_option (\<lambda>m. - int m) (py_nat ?ds)"
    by (simp add: py_int_def)
  with True show ?thesis
    by (simp add: str_int_def py_nat_dec_nat)
next
  case False
  let ?ds = "dec_nat (nat n)"
  obtain c cs where d: "?ds = c # cs"
    using dec_nat_not_Nil [of "nat n"] by (cases ?ds) auto
  have c: "is_dec_digit c" using dec_nat_ends(1) [of "nat n"] d by simp
  have "\<not> isspace (hd ?ds)" "\<not> isspace (last ?ds)"
    using dec_nat_ends [of "nat n"] is_dec_digit_plain by blast+
  then have "strip ?ds = ?ds"
    using dec_nat_not_Nil [of "nat n"] by (intro strip_id)
  then have "py_int ?ds = map_option int (py_nat ?ds)"
    unfolding py_int_def using d is_dec_digit_plain [OF c] by simp
  with False show ?thesis
    by (simp add: str_int_def py_nat_dec_nat)
qed

lemma str_int_plain: "c \<in> set (str_int n) \<Longrightarrow> \<not> isspace c \<and> c \<noteq> CHR 0x22"
  using dec_nat_plain [of c "nat n"] dec_nat_plain [of c "nat (- n)"] minus_plain
  by (cases "n < 0") (auto simp: str_int_def)

lemma str_int_not_Nil: "str_int n \<noteq> []"
  by (simp add: str_int_def dec_nat_not_Nil)

lemma is_token_str_int: "is_token (str_int n)"
proof -
  have "token_body False (str_int n)"
    using str_int_plain [of _ n] by (intro token_body_plain) blast+
  then show ?thesis by (simp add: is_token_def str_int_not_Nil)
qed

lemma parse_scalar_quoted:
  "parse_scalar ops (Some STRING) (CHR 0x22 # s @ [CHR 0x22]) = Inr (Some (SStr s))"
  by (simp add: startswith_def endswith_def butlast_append)

subsection \<open>Quote-aware tokenization\<close>

text \<open>
  C6 (quote-aware tokenization).  A line made of tokens, each followed by whitespace (which
  may be missing after the last one only) and possibly with whitespace in front, is split
  into exactly these tokens; a token may hold whitespace between double quotes.  A text
  without double quotes put between double quotes is such a token, whatever whitespace it
  holds, and under the fields \<open>Index:d\<close> and \<open>Name:s\<close> the line made of an integer, a space
  and the quoted text is decoded to the integer and the text without its quotes.
\<close>

theorem quote_aware_tokenization:
  "(list_all is_token (map fst tps) \<and> list_all (list_all isspace) (pad0 # map snd tps)
      \<and> list_all (\<lambda>pad. pad \<noteq> []) (map snd (butlast tps))
     \<longrightarrow> tokenize (pad0 @ concat (map (\<lambda>(t, pad). t @ pad) tps)) = map fst tps)
   \<and> (CHR 0x22 \<notin> set s \<longrightarrow>
        is_token (CHR 0x22 # s @ [CHR 0x22])
        \<and> tokenize (str_int n @ '' '' @ CHR 0x22 # s @ [CHR 0x22])
            = [str_int n, CHR 0x22 # s @ [CHR 0x22]]
        \<and> parse_rows ops [TextField_init ''Index'' ''d'', TextField_init ''Name'' ''s'']
              [str_int n @ '' '' @ CHR 0x22 # s @ [CHR 0x22]]
            = Inr [[One (SInt n), One (SStr s)]])"
proof (intro conjI impI)
  assume a: "list_all is_token (map fst tps) \<and> list_all (list_all isspace) (pad0 # map snd tps)
      \<and> list_all (\<lambda>pad. pad \<noteq> []) (map snd (butlast tps))"
  then have "tokens_from [] False (concat (map (\<lambda>(t, pad). t @ pad) tps)) = map fst tps"
    by (intro tokenize_padded) simp_all
  moreover from a have "list_all isspace pad0" by simp
  ultimately show "tokenize (pad0 @ concat (map (\<lambda>(t, pad). t @ pad) tps)) = map fst tps"
    by (simp add: tokenize_def tokens_from_pad_empty)
next
  assume s: "CHR 0x22 \<notin> set s"
  let ?q = "CHR 0x22 # s @ [CHR 0x22]"
  let ?line = "str_int n @ '' '' @ ?q"
  show q: "is_token ?q" by (rule is_token_quoted [OF s])
  have sp: "list_all isspace '' ''" by (simp add: isspace_def)
  have "tokens_from [] False (concat (map (\<lambda>(t, pad). t @ pad) [(str_int n, '' ''), (?q, [])]))
      = map fst [(str_int n, '' ''), (?q, [])]"
    using q is_token_str_int [of n] sp by (intro tokenize_padded) simp_all
  then show t: "tokenize ?line = [str_int n, ?q]"
    by (simp add: tokenize_def)
  have "\<not> isspace (hd ?line)"
    using str_int_plain [of "hd (str_int n)" n] str_int_not_Nil [of n] by (cases "str_int n") auto
  then have st: "strip ?line = ?line"
    by (intro strip_id) simp_all
  have r: "parse_row ops [TextField_init ''Index'' ''d'', TextField_init ''Name'' ''s''] [str_int n, ?q]
      = Inr [One (SInt n), One (SStr s)]"
    by (simp add: TextField_init_def from_char_def py_int_str_int startswith_def endswith_def
        butlast_append)
  show "parse_rows ops [TextField_init ''Index'' ''d'', TextField_init ''Name'' ''s''] [?line]
      = Inr [[One (SInt n), One (SStr s)]]"
    using st t r by simp
qed

theorem quote_aware_tokenization_witness:
  "list_all is_token (map fst [(''5'', '' ''), (CHR 0x22 # ''a value with spaces'' @ [CHR 0x22], [])])
   \<and> list_all (list_all isspace) ([] # map snd [(''5'', '' ''), (CHR 0x22 # ''a value with spaces'' @ [CHR 0x22], [])])
   \<and> list_all (\<lambda>pad. pad \<noteq> []) (map snd (butlast [(''5'', '' ''), (CHR 0x22 # ''a value with spaces'' @ [CHR 0x22], [])]))
   \<and> CHR 0x22 \<notin> set ''a value with spaces''
   \<and> tokenize (''5'' @ '' '' @ CHR 0x22 # ''a value with spaces'' @ [CHR 0x22])
       = [''5'', CHR 0x22 # ''a value with spaces'' @ [CHR 0x22]]
   \<and> parse_rows whole_ops [TextField_init ''Index'' ''d'', TextField_init ''Name'' ''s'']
         [''5'' @ '' '' @ CHR 0x22 # ''a value with spaces'' @ [CHR 0x22]]
       = Inr [[One (SInt 5), One (SStr ''a value with spaces'')]]
   \<and> decode_section whole_ops ''S'' None
         (''{ Index:d Name:s }\<newline>5 '' @ CHR 0x22 # ''a value with spaces'' @ [CHR 0x22, CHR 0x0A])
       = Inr \<lparr>sec_name = ''S'', sec_count = None,
              sec_fields = [TextField_init ''Index'' ''d'', TextField_init ''Name'' ''s''],
              sec_data = [[One (SInt 5), One (SStr ''a value with spaces'')]]\<rparr>"
proof -
  let ?tps = "[(''5'', '' ''), (CHR 0x22 # ''a value with spaces'' @ [CHR 0x22], [])]"
  have h1: "list_all is_token (map fst ?tps)" by code_simp
  have h2: "list_all (list_all isspace) ([] # map snd ?tps)" by code_simp
  have h3: "list_all (\<lambda>pad. pad \<noteq> []) (map snd (butlast ?tps))" by code_simp
  have h4: "CHR 0x22 \<notin> set ''a value with spaces''" by code_simp
  have five: "str_int 5 = ''5''" by code_simp
  have d: "decode_section whole_ops ''S'' None
         (''{ Index:d Name:s }\<newline>5 '' @ CHR 0x22 # ''a value with spaces'' @ [CHR 0x22, CHR 0x0A])
       = Inr \<lparr>sec_name = ''S'', sec_count = None,
              sec_fields = [TextField_init ''Index'' ''d'', TextField_init ''Name'' ''s''],
              sec_data = [[One (SInt 5), One (SStr ''a value with spaces'')]]\<rparr>"
    by code_simp
  note T = quote_aware_tokenization [of ?tps "[]" "''a value with spaces''" 5 whole_ops,
      unfolded five, THEN conjunct2, THEN mp, OF h4]
  note A = T [THEN conjunct2, THEN conjunct1]
  note B = T [THEN conjunct2, THEN conjunct2]
  from h1 h2 h3 h4 A B d show ?thesis by (intro conjI)
qed

subsection \<open>Comments\<close>

lemma split_once_absent:
  "\<forall>a b. s \<noteq> a @ sub @ b \<Longrightarrow> split_once sub s = None"
proof (induction s)
  case Nil
  then show ?case by (cases sub) auto
next
  case (Cons c cs)
  have "\<not> startswith (c # cs) sub"
  proof
    assume "startswith (c # cs) sub"
    then have "c # cs = [] @ sub @ drop (length sub) (c # cs)"
      unfolding startswith_def by (metis append_Nil append_take_drop_id)
    with Cons.prems show False by blast
  qed
  moreover have "\<forall>a b. cs \<noteq> a @ sub @ b"
  proof (intro allI notI)
    fix a b assume "cs = a @ sub @ b"
    then have "c # cs = (c # a) @ sub @ b" by simp
    with Cons.prems show False by blast
  qed
  ultimately show ?case using Cons.IH by simp
qed

lemma strip_comments_plain:
  "\<forall>l\<in>set ls. \<forall>a b. strip l \<noteq> a @ ''/*'' @ b \<Longrightarrow>
     strip_comments False ls = filter (\<lambda>l. l \<noteq> [] \<and> take 2 l \<noteq> ''//'') (map strip ls)"
proof (induction ls)
  case Nil
  show ?case by simp
next
  case (Cons l ls)
  have sw: "startswith t ''//'' = (take 2 t = ''//'')" for t
    by (simp add: startswith_def numeral_2_eq_2)
  from Cons.prems have "\<forall>a b. strip l \<noteq> a @ ''/*'' @ b" by simp
  then have "split_once ''/*'' (strip l) = None" by (rule split_once_absent)
  moreover from Cons have "strip_comments False ls
      = filter (\<lambda>l. l \<noteq> [] \<and> take 2 l \<noteq> ''//'') (map strip ls)" by simp
  ultimately show ?case by (simp add: Let_def sw)
qed

lemma parse_row_surplus:
  "length vals = sum_list (map (\<lambda>field. length (fld_types field)) flds) \<Longrightarrow>
     parse_row ops flds (vals @ extra) = parse_row ops flds vals"
proof (induction flds arbitrary: vals)
  case Nil
  then show ?case by simp
next
  case (Cons field rest)
  let ?k = "length (fld_types field)"
  from Cons.prems have k: "?k \<le> length vals"
    and r: "length (drop ?k vals) = sum_list (map (\<lambda>field. length (fld_types field)) rest)"
    by simp_all
  have "parse_row ops rest (drop ?k vals @ extra) = parse_row ops rest (drop ?k vals)"
    by (rule Cons.IH [OF r])
  moreover have "drop ?k (vals @ extra) = drop ?k vals @ extra" using k by simp
  ultimately show ?case using k by (simp add: Let_def cong: sum.case_cong)
qed

text \<open>
  C5 (comment stripping on read), as amended.  Among lines without \<open>/*\<close>, the lines
  dropped are the blank ones and those whose first characters after the leading whitespace
  are \<open>//\<close>; every other line is kept whole, so a \<open>//\<close> further inside a line starts no
  comment and is tokenized with the text after it.  Those tokens are left out of the row
  only as surplus: when the tokens before them fill every component of the fields, the row
  is decoded from the tokens before them alone.
\<close>

theorem comment_stripping:
  "((\<forall>l\<in>set ls. \<forall>a b. strip l \<noteq> a @ ''/*'' @ b) \<longrightarrow>
      strip_comments False ls = filter (\<lambda>l. l \<noteq> [] \<and> take 2 l \<noteq> ''//'') (map strip ls))
   \<and> (length vals = sum_list (map (\<lambda>field. length (fld_types field)) flds) \<longrightarrow>
        parse_row ops flds (vals @ extra) = parse_row ops flds vals)
   \<and> tokenize ''5 // x'' = [''5'', ''//'', ''x'']"
proof -
  have "tokenize ''5 // x'' = [''5'', ''//'', ''x'']" by code_simp
  then show ?thesis
    using strip_comments_plain [of ls] parse_row_surplus [of vals flds ops extra] by blast
qed

theorem comment_stripping_witness:
  "strip_comments False [''   5 // x'', '' // note'', ''6 //'', '' ''] = [''5 // x'', ''6 //'']
   \<and> length [''5''] = sum_list (map (\<lambda>field. length (fld_types field)) [TextField_init ''A'' ''d''])
   \<and> parse_row whole_ops [TextField_init ''A'' ''d''] ([''5''] @ [''//'', ''x''])
       = parse_row whole_ops [TextField_init ''A'' ''d''] [''5'']
   \<and> decode_section whole_ops ''S'' None ''{ A:d }\<newline>   5 // x\<newline> // note\<newline>6 //\<newline>''
       = Inr \<lparr>sec_name = ''S'', sec_count = None, sec_fields = [TextField_init ''A'' ''d''],
              sec_data = [[One (SInt 5)], [One (SInt 6)]]\<rparr>"
proof -
  let ?ls = "[''   5 // x'', '' // note'', ''6 //'', '' '']"
  have s: "map strip ?ls = [''5 // x'', ''// note'', ''6 //'', []]" by code_simp
  have n: "CHR ''*'' \<notin> set l" if "l \<in> set (map strip ?ls)" for l
    using that unfolding s by auto
  have h1: "\<forall>l\<in>set ?ls. \<forall>a b. strip l \<noteq> a @ ''/*'' @ b"
  proof (intro ballI allI notI)
    fix l a b assume l: "l \<in> set ?ls" and e: "strip l = a @ ''/*'' @ b"
    from l have "strip l \<in> set (map strip ?ls)" by (simp only: set_map) (rule imageI)
    then have "CHR ''*'' \<notin> set (strip l)" by (rule n)
    with e show False by simp
  qed
  have h2: "length [''5''] = sum_list (map (\<lambda>field. length (fld_types field)) [TextField_init ''A'' ''d''])"
    by code_simp
  have f: "filter (\<lambda>l. l \<noteq> [] \<and> take 2 l \<noteq> ''//'') (map strip ?ls) = [''5 // x'', ''6 //'']"
    by code_simp
  have d: "decode_section whole_ops ''S'' None ''{ A:d }\<newline>   5 // x\<newline> // note\<newline>6 //\<newline>''
       = Inr \<lparr>sec_name = ''S'', sec_count = None, sec_fields = [TextField_init ''A'' ''d''],
              sec_data = [[One (SInt 5)], [One (SInt 6)]]\<rparr>"
    by code_simp
  note T = comment_stripping [of ?ls "[''5'']" "[TextField_init ''A'' ''d'']" whole_ops "[''//'', ''x'']"]
  note A = T [THEN conjunct1, THEN mp, OF h1, unfolded f]
  note B = T [THEN conjunct2, THEN conjunct1, THEN mp, OF h2]
  from A h2 B d show ?thesis by (intro conjI)
qed

text \<open>
  C5 as stated fails: under the fields \<open>A:d B:s C:s\<close> the line \<open>5 // x\<close> is decoded to
  the row 5, \<open>//\<close>, \<open>x\<close>: the token after the \<open>//\<close> is in the row.
\<close>

theorem comment_stripping_counterexample:
  "decode_section whole_ops ''S'' None ''{ A:d B:s C:s }\<newline>5 // x\<newline>''
     = Inr \<lparr>sec_name = ''S'', sec_count = None,
            sec_fields = [TextField_init ''A'' ''d'', TextField_init ''B'' ''s'', TextField_init ''C'' ''s''],
            sec_data = [[One (SInt 5), One (SStr ''//''), One (SStr ''x'')]]\<rparr>"
  by code_simp

subsection \<open>Count enforcement\<close>

lemma decode_section_count_mismatch:
  assumes "py_int cs = Some c" and "cs \<noteq> []"
    and "(case fields_raw content of None \<Rightarrow> Inr [] | Some raw \<Rightarrow> parse_field_specs raw) = Inr flds"
    and "parse_rows ops flds (data_lines (strip_comments False (split_char (CHR 0x0A) content))) = Inr rows"
    and "int (length rows) \<noteq> c"
  shows "decode_section ops name (Some cs) content
     = Inl (ValueError (''Unexpected dimension in section ['' @ name @ '']. Expected '' @ str_int c
         @ '' rows, but found '' @ str_int (int (length rows)) @ ''. Aborting!''))"
  using assms by (simp add: decode_section_def row_count_message_def)

text \<open>
  C3 (count enforcement), as amended.  Write side: after a header with a declared count of
  at least 1, as long as the calls are \<open>add_field\<close> and \<open>add_end_line\<close> calls that close
  fewer lines than declared, nothing is written to the stream, whether one of the calls
  raises or not, and \<open>close_file\<close> then returns without raising and leaves no open
  stream.  Read side: when the header of a section declares a count, and the body of the
  section decodes to a number of rows that differs from it, decoding the section raises a
  \<open>ValueError\<close> whose message names the expected and the found number, and \<open>parse_section\<close>
  raises it and leaves the parser as it was.
\<close>

theorem count_enforcement:
  "(1 \<le> n \<and> list_all is_row_call calls \<and> int (end_lines calls) < n \<longrightarrow>
      fp (state_of (run ops (state_of (add_header w name n)) calls)) = fp w
      \<and> raised (close_file (state_of (run ops (state_of (add_header w name n)) calls))) = None
      \<and> fp (state_of (close_file (state_of (run ops (state_of (add_header w name n)) calls)))) = None)
   \<and> (py_int cs = Some c \<and> cs \<noteq> []
        \<and> (case fields_raw content of None \<Rightarrow> Inr [] | Some raw \<Rightarrow> parse_field_specs raw) = Inr flds
        \<and> parse_rows ops flds (data_lines (strip_comments False (split_char (CHR 0x0A) content))) = Inr rows
        \<and> int (length rows) \<noteq> c \<longrightarrow>
        parse_section ops p name (Some cs) content
          = Raises (ValueError (''Unexpected dimension in section ['' @ name @ '']. Expected '' @ str_int c
              @ '' rows, but found '' @ str_int (int (length rows)) @ ''. Aborting!'')) p)"
proof (intro conjI impI)
  assume a: "1 \<le> n \<and> list_all is_row_call calls \<and> int (end_lines calls) < n"
  let ?w1 = "state_of (add_header w name n)"
  let ?w2 = "state_of (run ops ?w1 calls)"
  from a have w1: "fp ?w1 = fp w" "line_count ?w1 = n" "current_line ?w1 = 0"
    by (simp_all add: add_header_def Let_def)
  have "fp ?w2 = fp ?w1 \<and> line_count ?w2 = line_count ?w1"
    using a w1 by (intro run_rows_keep_stream) simp_all
  with w1 show f: "fp ?w2 = fp w" by simp
  show "raised (close_file ?w2) = None"
    by (simp add: close_file_def split: option.splits)
  show "fp (state_of (close_file ?w2)) = None"
    by (simp add: close_file_def split: option.splits)
next
  assume "py_int cs = Some c \<and> cs \<noteq> []
        \<and> (case fields_raw content of None \<Rightarrow> Inr [] | Some raw \<Rightarrow> parse_field_specs raw) = Inr flds
        \<and> parse_rows ops flds (data_lines (strip_comments False (split_char (CHR 0x0A) content))) = Inr rows
        \<and> int (length rows) \<noteq> c"
  then have "decode_section ops name (Some cs) content
     = Inl (ValueError (''Unexpected dimension in section ['' @ name @ '']. Expected '' @ str_int c
         @ '' rows, but found '' @ str_int (int (length rows)) @ ''. Aborting!''))"
    using decode_section_count_mismatch [of cs c content flds ops rows name] by blast
  then show "parse_section ops p name (Some cs) content
          = Raises (ValueError (''Unexpected dimension in section ['' @ name @ '']. Expected '' @ str_int c
              @ '' rows, but found '' @ str_int (int (length rows)) @ ''. Aborting!'')) p"
    by (simp add: parse_section_def)
qed

theorem count_enforcement_witness:
  "(1 \<le> (3::int) \<and> list_all is_row_call ([AddField ''A:d'' [PInt 1], AddEndLine, AddField ''A:d'' [PInt 2], AddEndLine] :: int wcall list)
      \<and> int (end_lines ([AddField ''A:d'' [PInt 1], AddEndLine, AddField ''A:d'' [PInt 2], AddEndLine] :: int wcall list)) < 3)
   \<and> fp (state_of (run whole_ops (state_of (add_header w_open ''Foo'' 3))
         ([AddField ''A:d'' [PInt 1], AddEndLine, AddField ''A:d'' [PInt 2], AddEndLine] :: int wcall list))) = fp w_open
   \<and> (py_int ''3'' = Some 3 \<and> ''3'' \<noteq> []
      \<and> (case fields_raw ''{ A:d }\<newline>// ---\<newline>1\<newline>2\<newline>'' of None \<Rightarrow> Inr [] | Some raw \<Rightarrow> parse_field_specs raw)
          = Inr [TextField_init ''A'' ''d'']
      \<and> parse_rows whole_ops [TextField_init ''A'' ''d'']
           (data_lines (strip_comments False (split_char (CHR 0x0A) ''{ A:d }\<newline>// ---\<newline>1\<newline>2\<newline>'')))
          = Inr ([[One (SInt 1)], [One (SInt 2)]] :: int cell list list)
      \<and> int (length ([[One (SInt 1)], [One (SInt 2)]] :: int cell list list)) \<noteq> 3)
   \<and> parse_section whole_ops TextParser_init ''Foo'' (Some ''3'') ''{ A:d }\<newline>// ---\<newline>1\<newline>2\<newline>''
       = Raises (ValueError (''Unexpected dimension in section ['' @ ''Foo'' @ '']. Expected '' @ str_int 3
              @ '' rows, but found '' @ str_int (int (length ([[One (SInt 1)], [One (SInt 2)]] :: int cell list list))) @ ''. Aborting!''))
           TextParser_init
   \<and> (case parse_file whole_ops TextParser_init ''f''
               ''[ Foo : 3 ]\<newline> { A:d }\<newline>// --- \<newline>   1  \<newline>   2  \<newline>\<newline>'' of
         Inl (e, p) \<Rightarrow> Some e | Inr r \<Rightarrow> None)
       = Some (ValueError ''Unexpected dimension in section [Foo]. Expected 3 rows, but found 2. Aborting!'')"
proof -
  let ?calls = "([AddField ''A:d'' [PInt 1], AddEndLine, AddField ''A:d'' [PInt 2], AddEndLine] :: int wcall list)"
  let ?content = "''{ A:d }\<newline>// ---\<newline>1\<newline>2\<newline>''"
  let ?rows = "([[One (SInt 1)], [One (SInt 2)]] :: int cell list list)"
  have h1: "1 \<le> (3::int) \<and> list_all is_row_call ?calls \<and> int (end_lines ?calls) < 3"
    by code_simp
  have h2: "py_int ''3'' = Some 3 \<and> ''3'' \<noteq> []
      \<and> (case fields_raw ?content of None \<Rightarrow> Inr [] | Some raw \<Rightarrow> parse_field_specs raw)
          = Inr [TextField_init ''A'' ''d'']
      \<and> parse_rows whole_ops [TextField_init ''A'' ''d'']
           (data_lines (strip_comments False (split_char (CHR 0x0A) ?content))) = Inr ?rows
      \<and> int (length ?rows) \<noteq> 3"
    by code_simp
  have pf: "(case parse_file whole_ops TextParser_init ''f''
               ''[ Foo : 3 ]\<newline> { A:d }\<newline>// --- \<newline>   1  \<newline>   2  \<newline>\<newline>'' of
         Inl (e, p) \<Rightarrow> Some e | Inr r \<Rightarrow> None)
       = Some (ValueError ''Unexpected dimension in section [Foo]. Expected 3 rows, but found 2. Aborting!'')"
    by code_simp
  note T = count_enforcement [of 3 ?calls whole_ops w_open "''Foo''" "''3''" 3 ?content
      "[TextField_init ''A'' ''d'']" ?rows TextParser_init]
  note A = T [THEN conjunct1, THEN mp, OF h1, THEN conjunct1]
  note B = T [THEN conjunct2, THEN mp, OF h2]
  show ?thesis by (rule conjI [OF h1 conjI [OF A conjI [OF h2 conjI [OF B pf]]]])
qed

text \<open>
  C3 as stated fails on the write side: with a declared count of 3 and two rows written,
  \<open>close_file\<close> returns without raising, and nothing was written to the stream before
  it.
\<close>

theorem count_enforcement_counterexample:
  "raised (run whole_ops w_open [AddHeader ''Foo'' 3, AddField ''A:d'' [PInt 1], AddEndLine,
       AddField ''A:d'' [PInt 2], AddEndLine, CloseFile]) = None
   \<and> fp (state_of (run whole_ops w_open [AddHeader ''Foo'' 3, AddField ''A:d'' [PInt 1], AddEndLine,
       AddField ''A:d'' [PInt 2], AddEndLine])) = Some []"
  by code_simp

subsection \<open>Sections and parse_file\<close>

lemma parse_sections_append:
  "parse_sections ops p (xs @ ys) =
     (case parse_sections ops p xs of
        Raises e p' \<Rightarrow> Raises e p'
      | Returns p' \<Rightarrow> parse_sections ops p' ys)"
  by (induction xs arbitrary: p) (auto split: outcome.splits)

lemma close_section_sections:
  "close_section ops p cur content =
     parse_sections ops p (case cur of None \<Rightarrow> [] | Some (name, count_str) \<Rightarrow> [(name, count_str, content)])"
  by (auto simp: close_section_def split: option.splits outcome.splits)

lemma parse_lines_sections:
  "parse_lines ops p cur content in_quotes lines =
     parse_sections ops p (split_sections cur content in_quotes lines)"
proof (induction lines arbitrary: p cur content in_quotes)
  case Nil
  show ?case by (simp add: close_section_sections)
next
  case (Cons raw rest)
  let ?line = "strip raw"
  let ?q = "quotes_after in_quotes ?line"
  let ?hdr = "\<not> ?q \<and> startswith ?line ''['' \<and> CHR '']'' \<in> set ?line"
  have sw: "startswith ?line ''['' = (take 1 ?line = ''['')"
    by (simp add: startswith_def)
  show ?case
  proof (cases "?line = []")
    case True
    then show ?thesis by (simp add: Cons.IH)
  next
    case False
    show ?thesis
    proof (cases ?hdr)
      case True
      have "parse_lines ops p cur content in_quotes (raw # rest) =
          (case close_section ops p cur content of
             Raises e p' \<Rightarrow> Raises e p'
           | Returns p' \<Rightarrow>
               parse_lines ops p' (Some (header_parts ?line))
                 (if cur \<noteq> None then [] else content) ?q rest)"
        by (simp only: parse_lines.simps Let_def False True if_False if_True simp_thms)
      also have "\<dots> = parse_sections ops p
          ((case cur of None \<Rightarrow> [] | Some (name, count_str) \<Rightarrow> [(name, count_str, content)])
           @ split_sections (Some (header_parts ?line))
               (if cur \<noteq> None then [] else content) ?q rest)"
        unfolding parse_sections_append close_section_sections Cons.IH ..
      also have "split_sections cur content in_quotes (raw # rest)
          = (case cur of None \<Rightarrow> [] | Some (name, count_str) \<Rightarrow> [(name, count_str, content)])
           @ split_sections (Some (header_parts ?line))
               (if cur \<noteq> None then [] else content) ?q rest"
        by (simp only: split_sections.simps False True [unfolded sw] if_False if_True simp_thms)
      then have "parse_sections ops p
          ((case cur of None \<Rightarrow> [] | Some (name, count_str) \<Rightarrow> [(name, count_str, content)])
           @ split_sections (Some (header_parts ?line))
               (if cur \<noteq> None then [] else content) ?q rest)
         = parse_sections ops p (split_sections cur content in_quotes (raw # rest))"
        by simp
      finally show ?thesis .
    next
      case other: False
      have "parse_lines ops p cur content in_quotes (raw # rest) =
          (if cur \<noteq> None
           then parse_lines ops p cur (content @ ?line @ [CHR 0x0A]) ?q rest
           else parse_lines ops p cur content ?q rest)"
        by (simp only: parse_lines.simps Let_def False other if_False simp_thms)
      also have "\<dots> =
          (if cur \<noteq> None
           then parse_sections ops p (split_sections cur (content @ ?line @ [CHR 0x0A]) ?q rest)
           else parse_sections ops p (split_sections cur content ?q rest))"
        by (simp only: Cons.IH)
      also have "split_sections cur content in_quotes (raw # rest) =
          (if cur \<noteq> None
           then split_sections cur (content @ ?line @ [CHR 0x0A]) ?q rest
           else split_sections cur content ?q rest)"
        by (simp only: split_sections.simps False other [unfolded sw] if_False simp_thms)
      then have "(if cur \<noteq> None
           then parse_sections ops p (split_sections cur (content @ ?line @ [CHR 0x0A]) ?q rest)
           else parse_sections ops p (split_sections cur content ?q rest))
         = parse_sections ops p (split_sections cur content in_quotes (raw # rest))"
        by simp
      finally show ?thesis .
    qed
  qed
qed

lemma parse_sections_Returns_from:
  "parse_sections ops p secs = Returns p' \<Longrightarrow> sections p = m \<Longrightarrow>
     list_all (\<lambda>(name, count_str, content). \<exists>sec. decode_section ops name count_str content = Inr sec) secs
     \<and> sections p' = store_all ops m secs \<and> filepath p' = filepath p"
proof (induction secs arbitrary: p m)
  case Nil
  then show ?case by (simp add: store_all_def)
next
  case (Cons s secs)
  obtain name count_str content where s: "s = (name, count_str, content)" by (cases s)
  let ?p1 = "p\<lparr>sections := (sections p)(name \<mapsto> projr (decode_section ops name count_str content))\<rparr>"
  from Cons.prems(1) s obtain sec where d: "decode_section ops name count_str content = Inr sec"
    and r: "parse_sections ops ?p1 secs = Returns p'"
    by (auto simp: parse_section_def split: sum.splits)
  have m1: "sections ?p1 = m(name \<mapsto> projr (decode_section ops name count_str content))"
    using Cons.prems(2) by (intro ext) simp
  have step: "store_all ops m (s # secs)
      = store_all ops (m(name \<mapsto> projr (decode_section ops name count_str content))) secs"
    using s by (simp add: store_all_def)
  from Cons.IH [OF r m1]
  have i1: "list_all (\<lambda>(name, count_str, content). \<exists>sec. decode_section ops name count_str content = Inr sec) secs"
    and i2: "sections p' = store_all ops (m(name \<mapsto> projr (decode_section ops name count_str content))) secs"
    and i3: "filepath p' = filepath ?p1"
    by blast+
  have 1: "list_all (\<lambda>(name, count_str, content). \<exists>sec. decode_section ops name count_str content = Inr sec) (s # secs)"
    using i1 d s by simp
  have 2: "sections p' = store_all ops m (s # secs)"
    unfolding step by (rule i2)
  have 3: "filepath p' = filepath p" using i3 by simp
  from 1 2 3 show ?case by blast
qed

lemma parse_sections_Returns:
  "parse_sections ops p secs = Returns p' \<Longrightarrow>
     list_all (\<lambda>(name, count_str, content). \<exists>sec. decode_section ops name count_str content = Inr sec) secs
     \<and> sections p' = store_all ops (sections p) secs \<and> filepath p' = filepath p"
  by (rule parse_sections_Returns_from) simp_all

lemma parse_sections_Raises:
  "parse_sections ops p secs = Raises e p' \<Longrightarrow>
     list_ex (\<lambda>(name, count_str, content). decode_section ops name count_str content = Inl e) secs"
proof (induction secs arbitrary: p)
  case Nil
  then show ?case by simp
next
  case (Cons s secs)
  obtain name count_str content where s: "s = (name, count_str, content)" by (cases s)
  show ?case
  proof (cases "decode_section ops name count_str content")
    case (Inl e')
    with Cons.prems s show ?thesis by (simp add: parse_section_def)
  next
    case (Inr sec)
    with Cons.prems s have "parse_sections ops (p\<lparr>sections := (sections p)(name \<mapsto> sec)\<rparr>) secs = Raises e p'"
      by (simp add: parse_section_def)
    from Cons.IH [OF this] s show ?thesis by simp
  qed
qed

lemma parse_file_sections:
  "parse_file ops p path text =
     (case parse_sections ops (p\<lparr>filepath := Some path\<rparr>) (sections_of text) of
        Raises e p' \<Rightarrow> Inl (e, p')
      | Returns p' \<Rightarrow> Inr (sections p', p'))"
  by (simp add: parse_file_def parse_lines_sections sections_of_def)

text \<open>
  C9 (decode atomicity).  When \<open>parse_file\<close> returns a dictionary, every section of the
  text was decoded without error, and the dictionary is the one the parser had before the
  call with every section of the text stored under its name, in the order of the text.
  When \<open>parse_file\<close> does not return a dictionary it raises, with the error of a section
  of the text.
\<close>

theorem decode_atomicity:
  "(parse_file ops p path text = Inr (doc, p') \<longrightarrow>
      list_all (\<lambda>(name, count_str, content). \<exists>sec. decode_section ops name count_str content = Inr sec)
        (sections_of text)
      \<and> doc = store_all ops (sections p) (sections_of text)
      \<and> sections p' = doc)
   \<and> (parse_file ops p path text = Inl (e, p') \<longrightarrow>
        list_ex (\<lambda>(name, count_str, content). decode_section ops name count_str content = Inl e)
          (sections_of text))"
proof (rule conjI; rule impI)
  assume "parse_file ops p path text = Inr (doc, p')"
  then have r: "parse_sections ops (p\<lparr>filepath := Some path\<rparr>) (sections_of text) = Returns p'"
    and d: "doc = sections p'"
    by (auto simp: parse_file_sections split: outcome.splits)
  from parse_sections_Returns [OF r] d
  show "list_all (\<lambda>(name, count_str, content). \<exists>sec. decode_section ops name count_str content = Inr sec)
        (sections_of text)
      \<and> doc = store_all ops (sections p) (sections_of text)
      \<and> sections p' = doc"
    by simp
next
  assume "parse_file ops p path text = Inl (e, p')"
  then have "parse_sections ops (p\<lparr>filepath := Some path\<rparr>) (sections_of text) = Raises e p'"
    by (auto simp: parse_file_sections split: outcome.splits)
  then show "list_ex (\<lambda>(name, count_str, content). decode_section ops name count_str content = Inl e)
          (sections_of text)"
    by (rule parse_sections_Raises)
qed

lemma outcome_Returns: "raised r = None \<Longrightarrow> r = Returns (state_of r)"
  by (cases r) simp_all

lemma outcome_Raises: "raised r = Some e \<Longrightarrow> r = Raises e (state_of r)"
  by (cases r) simp_all

theorem decode_atomicity_witness:
  "parse_file whole_ops TextParser_init ''f'' two_sections_text
     = Inr (sections (state_of (parse_sections whole_ops (TextParser_init\<lparr>filepath := Some ''f''\<rparr>)
                                   (sections_of two_sections_text))),
            state_of (parse_sections whole_ops (TextParser_init\<lparr>filepath := Some ''f''\<rparr>)
                        (sections_of two_sections_text)))
   \<and> sections_of two_sections_text
       = [(''Foo'', Some ''1'', ''{ A:d }\<newline>// ---\<newline>3\<newline>''), (''Bar'', None, ''{ X:ss }\<newline>a b\<newline>'')]
   \<and> list_all (\<lambda>(name, count_str, content). \<exists>sec. decode_section whole_ops name count_str content = Inr sec)
         (sections_of two_sections_text)
   \<and> sections (state_of (parse_sections whole_ops (TextParser_init\<lparr>filepath := Some ''f''\<rparr>)
                            (sections_of two_sections_text)))
       = store_all whole_ops (sections TextParser_init) (sections_of two_sections_text)
   \<and> map_option sec_data (store_all whole_ops (sections TextParser_init) (sections_of two_sections_text) ''Foo'')
       = Some [[One (SInt 3)]]
   \<and> map_option sec_data (store_all whole_ops (sections TextParser_init) (sections_of two_sections_text) ''Bar'')
       = Some [[Many [SStr ''a'', SStr ''b'']]]
   \<and> parse_file whole_ops TextParser_init ''f'' short_section_text
       = Inl (ValueError ''Unexpected dimension in section [Bar]. Expected 2 rows, but found 1. Aborting!'',
              state_of (parse_sections whole_ops (TextParser_init\<lparr>filepath := Some ''f''\<rparr>)
                          (sections_of short_section_text)))
   \<and> list_ex (\<lambda>(name, count_str, content). decode_section whole_ops name count_str content
           = Inl (ValueError ''Unexpected dimension in section [Bar]. Expected 2 rows, but found 1. Aborting!''))
         (sections_of short_section_text)"
proof -
  let ?p0 = "TextParser_init\<lparr>filepath := Some ''f''\<rparr> :: int TextParser"
  let ?r1 = "parse_sections whole_ops ?p0 (sections_of two_sections_text)"
  let ?r2 = "parse_sections whole_ops ?p0 (sections_of short_section_text)"
  let ?e = "ValueError ''Unexpected dimension in section [Bar]. Expected 2 rows, but found 1. Aborting!''"
  have "raised ?r1 = None" by code_simp
  then have r1: "?r1 = Returns (state_of ?r1)" by (rule outcome_Returns)
  have h1: "parse_file whole_ops TextParser_init ''f'' two_sections_text
      = Inr (sections (state_of ?r1), state_of ?r1)"
    unfolding parse_file_sections by (subst r1) simp
  have "raised ?r2 = Some ?e" by code_simp
  then have r2: "?r2 = Raises ?e (state_of ?r2)" by (rule outcome_Raises)
  have h2: "parse_file whole_ops TextParser_init ''f'' short_section_text = Inl (?e, state_of ?r2)"
    unfolding parse_file_sections by (subst r2) simp
  have s: "sections_of two_sections_text
       = [(''Foo'', Some ''1'', ''{ A:d }\<newline>// ---\<newline>3\<newline>''), (''Bar'', None, ''{ X:ss }\<newline>a b\<newline>'')]"
    by code_simp
  have f: "map_option sec_data (store_all whole_ops (sections TextParser_init) (sections_of two_sections_text) ''Foo'')
       = Some [[One (SInt 3)]]"
    by code_simp
  have b: "map_option sec_data (store_all whole_ops (sections TextParser_init) (sections_of two_sections_text) ''Bar'')
       = Some [[Many [SStr ''a'', SStr ''b'']]]"
    by code_simp
  note T1 = decode_atomicity [of whole_ops TextParser_init "''f''" two_sections_text
      "sections (state_of ?r1)" "state_of ?r1", THEN conjunct1, THEN mp, OF h1]
  note T2 = decode_atomicity [of whole_ops TextParser_init "''f''" short_section_text _ "state_of ?r2" ?e,
      THEN conjunct2, THEN mp, OF h2]
  show ?thesis
    by (rule conjI [OF h1 conjI [OF s conjI [OF T1 [THEN conjunct1] conjI [OF T1 [THEN conjunct2, THEN conjunct1]
          conjI [OF f conjI [OF b conjI [OF h2 T2]]]]]]])
qed

end
